theory Spec2Isabelle
  imports Complex_Main "HOL-Library.Word" "HOL-Library.Sublist"
begin

unbundle bit_operations_syntax

chapter \<open>The Morpho runtime: class linearization, random engine, discretizations, parser ladder\<close>

text \<open>
  A shallow embedding of four parts of the Morpho sources:
  \<^item> \<^verbatim>\<open>src/support/parse.h\<close>: the precedence enumeration of the parser;
  \<^item> \<^verbatim>\<open>src/classes/clss.c\<close>: the linearization of a class from its parents;
  \<^item> \<^verbatim>\<open>src/support/random.c\<close>: splitmix64, xoshiro256++ and xoshiro256+;
  \<^item> \<^verbatim>\<open>morpho5/geometry/discretization.c\<close>: the discretization object and the
    Lagrange constructor.
  Each C function is a HOL function of the same name (a leading underscore dropped, a
  suffix added where the name is taken); a loop is a recursion or a fold over its index
  range; the module's global variables are the fields of a record passed through.
\<close>

section \<open>The embedding\<close>

subsection \<open>parse.h: the precedence enumeration\<close>

text \<open>
  \<^verbatim>\<open>enum { PREC_NONE, PREC_LOWEST, ..., PREC_HIGHEST }; typedef int precedence;\<close>
  A C enumeration without initialisers gives its first enumerator the value 0 and every
  later one the value of its predecessor plus one.
\<close>

type_synonym precedence = int

definition PREC_NONE :: precedence where "PREC_NONE = 0"
definition PREC_LOWEST :: precedence where "PREC_LOWEST = PREC_NONE + 1"
definition PREC_ASSIGN :: precedence where "PREC_ASSIGN = PREC_LOWEST + 1"
definition PREC_OR :: precedence where "PREC_OR = PREC_ASSIGN + 1"
definition PREC_AND :: precedence where "PREC_AND = PREC_OR + 1"
definition PREC_EQUALITY :: precedence where "PREC_EQUALITY = PREC_AND + 1"
definition PREC_COMPARISON :: precedence where "PREC_COMPARISON = PREC_EQUALITY + 1"
definition PREC_RANGE :: precedence where "PREC_RANGE = PREC_COMPARISON + 1"
definition PREC_TERM :: precedence where "PREC_TERM = PREC_RANGE + 1"
definition PREC_FACTOR :: precedence where "PREC_FACTOR = PREC_TERM + 1"
definition PREC_UNARY :: precedence where "PREC_UNARY = PREC_FACTOR + 1"
definition PREC_POW :: precedence where "PREC_POW = PREC_UNARY + 1"
definition PREC_CALL :: precedence where "PREC_CALL = PREC_POW + 1"
definition PREC_HIGHEST :: precedence where "PREC_HIGHEST = PREC_CALL + 1"

lemmas PREC_defs =
  PREC_NONE_def PREC_LOWEST_def PREC_ASSIGN_def PREC_OR_def PREC_AND_def
  PREC_EQUALITY_def PREC_COMPARISON_def PREC_RANGE_def PREC_TERM_def PREC_FACTOR_def
  PREC_UNARY_def PREC_POW_def PREC_CALL_def PREC_HIGHEST_def

text \<open>
  The ladder as the specification words it, NONE first and HIGHEST last: the rungs by
  name, and the place of each rung in the specification's list.
\<close>

datatype rung =
  Rung_NONE | Rung_LOWEST | Rung_ASSIGN | Rung_OR | Rung_AND | Rung_EQUALITY
  | Rung_COMPARISON | Rung_RANGE | Rung_TERM | Rung_FACTOR | Rung_UNARY | Rung_POW
  | Rung_CALL | Rung_HIGHEST

definition spec_ladder :: "rung list" where
  "spec_ladder =
     [Rung_NONE, Rung_LOWEST, Rung_ASSIGN, Rung_OR, Rung_AND, Rung_EQUALITY,
      Rung_COMPARISON, Rung_RANGE, Rung_TERM, Rung_FACTOR, Rung_UNARY, Rung_POW,
      Rung_CALL, Rung_HIGHEST]"

text \<open>The place of a rung in a ladder: the number of rungs before its first occurrence.\<close>

fun place :: "rung list \<Rightarrow> rung \<Rightarrow> nat" where
  "place [] r = 0"
| "place (x # xs) r = (if x = r then 0 else Suc (place xs r))"

text \<open>The enumerator of \<^verbatim>\<open>parse.h\<close> that carries the rung's name.\<close>

fun prec_of :: "rung \<Rightarrow> precedence" where
  "prec_of Rung_NONE = PREC_NONE"
| "prec_of Rung_LOWEST = PREC_LOWEST"
| "prec_of Rung_ASSIGN = PREC_ASSIGN"
| "prec_of Rung_OR = PREC_OR"
| "prec_of Rung_AND = PREC_AND"
| "prec_of Rung_EQUALITY = PREC_EQUALITY"
| "prec_of Rung_COMPARISON = PREC_COMPARISON"
| "prec_of Rung_RANGE = PREC_RANGE"
| "prec_of Rung_TERM = PREC_TERM"
| "prec_of Rung_FACTOR = PREC_FACTOR"
| "prec_of Rung_UNARY = PREC_UNARY"
| "prec_of Rung_POW = PREC_POW"
| "prec_of Rung_CALL = PREC_CALL"
| "prec_of Rung_HIGHEST = PREC_HIGHEST"

subsection \<open>clss.c: classes and their linearization\<close>

text \<open>
  A class is a heap object; a reference to it (a \<^verbatim>\<open>value\<close> holding the object pointer) is
  modelled by a natural number, and \<^verbatim>\<open>MORPHO_ISEQUAL\<close> on two class references by equality.
  The fields of \<^verbatim>\<open>objectclass\<close> that \<^verbatim>\<open>clss.c\<close> reads or writes are kept; the method
  dictionary, which no function below touches, is left out. A \<^verbatim>\<open>varray_value\<close> is the list
  of its first \<^verbatim>\<open>count\<close> elements: \<^verbatim>\<open>varray_valuewrite\<close> appends one element,
  \<^verbatim>\<open>varray_valueadd\<close> appends a block, and setting \<^verbatim>\<open>count\<close> to 0 empties it.
  The store maps every class reference to the object it points to.
\<close>

record objectclass =
  name :: string
  parents :: "nat list"
  children :: "nat list"
  linearization :: "nat list"
  superclass :: "nat option"
  uid :: nat

type_synonym class_store = "nat \<Rightarrow> objectclass"

text \<open>
  \<^verbatim>\<open>object_newclass\<close>, for an allocation that succeeds. The C function leaves
  \<^verbatim>\<open>linearization\<close> as allocated; \<^verbatim>\<open>class_linearize\<close> resets its count before any use.
\<close>

definition object_newclass :: "string \<Rightarrow> objectclass" where
  "object_newclass nm =
     \<lparr>name = nm, parents = [], children = [], linearization = [], superclass = None, uid = 0\<rparr>"

text \<open>\<^verbatim>\<open>_intail\<close>: the loop runs over the indices 1 to count - 1.\<close>

fun intail_from :: "'a list \<Rightarrow> 'a \<Rightarrow> bool" where
  "intail_from [] v = False"
| "intail_from (x # xs) v = (if x = v then True else intail_from xs v)"

definition intail :: "'a list \<Rightarrow> 'a \<Rightarrow> bool" where
  "intail list v = intail_from (drop 1 list) v"

text \<open>
  \<^verbatim>\<open>_remove\<close>: on a match at index i the elements behind it move one place down and the
  count drops by one; the loop then goes on at index i + 1, so the element that moved
  into place i is not compared. (The \<^verbatim>\<open>memcpy\<close> is given a byte count of
  \<^verbatim>\<open>sizeof(value)*count-i-1\<close>, which is never less than the bytes of the elements behind
  index i; what it copies beyond them lands behind the new count. The model takes the
  copy to run from the low addresses up, as the overlap of source and destination
  needs, and keeps the elements below the count and nothing of the memory behind them.)
\<close>

fun remove :: "'a list \<Rightarrow> 'a \<Rightarrow> 'a list" where
  "remove [] v = []"
| "remove (x # xs) v =
     (if x = v then (case xs of [] \<Rightarrow> [] | y # ys \<Rightarrow> y # remove ys v)
      else x # remove xs v)"

text \<open>\<^verbatim>\<open>_inanytail\<close>\<close>

fun inanytail :: "'a list list \<Rightarrow> 'a \<Rightarrow> bool" where
  "inanytail [] v = False"
| "inanytail (l # ls) v = (if intail l v then True else inanytail ls v)"

text \<open>
  \<^verbatim>\<open>_done\<close>: \<^verbatim>\<open>for (int i=0; i<n; i++) if (in->count>0) return false;\<close>
  The test reads \<^verbatim>\<open>in->count\<close>, the count of the first list, at every index i.
\<close>

fun done_from :: "nat \<Rightarrow> 'a list list \<Rightarrow> bool" where
  "done_from 0 ins = True"
| "done_from (Suc k) ins = (if length (ins ! 0) > 0 then False else done_from k ins)"

definition done_c3 :: "'a list list \<Rightarrow> bool" where
  "done_c3 ins = done_from (length ins) ins"

text \<open>
  \<^verbatim>\<open>_merge\<close>: the first list, in the order given, whose head is in no tail gives the head;
  it is written to the output and removed from every list. \<open>merge_from\<close> is the search
  loop over the lists from index i on; \<open>merge\<close> returns the flag together with the lists
  and the output as the call leaves them.
\<close>

fun merge_from :: "'a list list \<Rightarrow> 'a list list \<Rightarrow> 'a option" where
  "merge_from [] ins = None"
| "merge_from (l # ls) ins =
     (case l of
        [] \<Rightarrow> merge_from ls ins
      | head # _ \<Rightarrow> if inanytail ins head then merge_from ls ins else Some head)"

definition merge :: "'a list list \<Rightarrow> 'a list \<Rightarrow> bool \<times> 'a list list \<times> 'a list" where
  "merge ins out =
     (case merge_from ins ins of
        None \<Rightarrow> (False, ins, out)
      | Some head \<Rightarrow> (True, map (\<lambda>l. remove l head) ins, out @ [head]))"

text \<open>\<^verbatim>\<open>_init\<close>\<close>

definition init :: "objectclass \<Rightarrow> nat list \<Rightarrow> nat list" where
  "init parent out =
     (if length (linearization parent) \<noteq> 0 then out @ linearization parent else out)"

text \<open>
  The loop of \<^verbatim>\<open>_linearize\<close>:
  \<^verbatim>\<open>while (success && !_done(n, lin)) success=_merge(n, lin, out);\<close>
  It ends: a merge that succeeds shortens the list whose head it took.
\<close>

definition total_length :: "'a list list \<Rightarrow> nat" where
  "total_length ins = sum_list (map length ins)"

lemma length_remove: "length (remove l v) \<le> length l"
  by (induction l v rule: remove.induct) (auto split: list.splits)

lemma length_remove_head: "length (remove (v # t) v) < length (v # t)"
proof (cases t)
  case Nil
  then show ?thesis by simp
next
  case (Cons y ys)
  have "length (remove ys v) \<le> length ys" by (rule length_remove)
  with Cons show ?thesis by simp
qed

lemma merge_from_head:
  "merge_from cs ins = Some h \<Longrightarrow> \<exists>t. (h # t) \<in> set cs \<and> \<not> inanytail ins h"
  by (induction cs ins rule: merge_from.induct) (auto split: list.splits if_splits)

lemma total_length_remove_le: "total_length (map (\<lambda>l. remove l h) ins) \<le> total_length ins"
  unfolding total_length_def
  by (induction ins) (auto simp: length_remove add_le_mono)

lemma total_length_remove_less:
  "(h # t) \<in> set ins \<Longrightarrow> total_length (map (\<lambda>l. remove l h) ins) < total_length ins"
proof (induction ins)
  case Nil
  then show ?case by simp
next
  case (Cons l ls)
  have le: "total_length (map (\<lambda>l. remove l h) ls) \<le> total_length ls"
    by (rule total_length_remove_le)
  show ?case
  proof (cases "l = h # t")
    case True
    have "length (remove (h # t) h) < length (h # t)" by (rule length_remove_head)
    with True le show ?thesis unfolding total_length_def by simp
  next
    case False
    with Cons have "total_length (map (\<lambda>l. remove l h) ls) < total_length ls" by simp
    moreover have "length (remove l h) \<le> length l" by (rule length_remove)
    ultimately show ?thesis unfolding total_length_def by simp
  qed
qed

lemma merge_decreases:
  "merge ins out = (True, ins', out') \<Longrightarrow> total_length ins' < total_length ins"
  unfolding merge_def
  by (auto split: option.splits dest!: merge_from_head intro: total_length_remove_less)

function linearize_loop :: "bool \<Rightarrow> 'a list list \<Rightarrow> 'a list \<Rightarrow> bool \<times> 'a list" where
  "linearize_loop success lin out =
     (if success \<and> \<not> done_c3 lin
      then (case merge lin out of (success', lin', out') \<Rightarrow> linearize_loop success' lin' out')
      else (success, out))"
  by pat_completeness auto
termination
proof (relation "measure (\<lambda>(success, lin, out). if success then Suc (total_length lin) else 0)",
    goal_cases)
  case 1
  show ?case by simp
next
  case (2 success lin out x1 x2 x3 x4)
  then have m: "merge lin out = (x1, x3, x4)" and s: success by auto
  show ?case
  proof (cases x1)
    case True
    with m have "total_length x3 < total_length lin" by (auto dest: merge_decreases)
    with True s m show ?thesis by simp
  next
    case False
    with s m show ?thesis by simp
  qed
qed

declare linearize_loop.simps [simp del]

text \<open>
  \<^verbatim>\<open>_linearize\<close> writes the class itself to the output, which is the class's own
  \<^verbatim>\<open>linearization\<close> array, copies the linearization of every parent into a list of its
  own and runs the loop. The copies are read after the class has been written, as in C.
\<close>

definition linearize :: "class_store \<Rightarrow> nat \<Rightarrow> bool \<times> class_store" where
  "linearize h klass =
     (let h1 = h(klass := (h klass)\<lparr>linearization := linearization (h klass) @ [klass]\<rparr>);
          n = length (parents (h1 klass))
      in if n = 0 then (True, h1)
         else
           (let lin = map (\<lambda>p. init (h1 p) []) (parents (h1 klass));
                (success, out) = linearize_loop True lin (linearization (h1 klass))
            in (success, h1(klass := (h1 klass)\<lparr>linearization := out\<rparr>))))"

definition class_linearize :: "class_store \<Rightarrow> nat \<Rightarrow> bool \<times> class_store" where
  "class_linearize h klass =
     linearize (h(klass := (h klass)\<lparr>linearization := []\<rparr>)) klass"

subsection \<open>random.c: splitmix64, xoshiro256++ and xoshiro256+\<close>

text \<open>
  \<^verbatim>\<open>uint64_t\<close> is \<open>64 word\<close>: \<open>+\<close> and \<open>*\<close> wrap around, \<^verbatim>\<open>x << k\<close> is
  \<open>push_bit k x\<close> and \<^verbatim>\<open>x >> k\<close> is \<open>drop_bit k x\<close>. The three file-scope variables of the
  module are the fields of \<open>random_state\<close>; a function that reads or writes them takes the
  state and returns it. An array \<^verbatim>\<open>uint64_t s[4]\<close> is a record of its four words.
\<close>

type_synonym u64 = "64 word"

record words4 =
  w0 :: u64
  w1 :: u64
  w2 :: u64
  w3 :: u64

record random_state =
  splitmix64_state :: u64
  xoshiro256pp_state :: words4
  xoshiro256p_state :: words4

definition splitmix64_next :: "random_state \<Rightarrow> u64 \<times> random_state" where
  "splitmix64_next r =
     (let r = r\<lparr>splitmix64_state := splitmix64_state r + 0x9E3779B97F4A7C15\<rparr>;
          z = splitmix64_state r;
          z = (z XOR drop_bit 30 z) * 0xBF58476D1CE4E5B9;
          z = (z XOR drop_bit 27 z) * 0x94D049BB133111EB
      in (z XOR drop_bit 31 z, r))"

definition splitmix64_seed :: "u64 \<Rightarrow> random_state \<Rightarrow> random_state" where
  "splitmix64_seed seed r = r\<lparr>splitmix64_state := seed\<rparr>"

definition xoshiro256pp_rotl :: "u64 \<Rightarrow> nat \<Rightarrow> u64" where
  "xoshiro256pp_rotl x k = push_bit k x OR drop_bit (64 - k) x"

text \<open>\<^verbatim>\<open>next\<close>, the draw of xoshiro256++ (the name is a keyword of the proof language).\<close>

definition next_pp :: "random_state \<Rightarrow> u64 \<times> random_state" where
  "next_pp r =
     (let s = xoshiro256pp_state r;
          result = xoshiro256pp_rotl (w0 s + w3 s) 23 + w0 s;
          t = push_bit 17 (w1 s);
          s = s\<lparr>w2 := w2 s XOR w0 s\<rparr>;
          s = s\<lparr>w3 := w3 s XOR w1 s\<rparr>;
          s = s\<lparr>w1 := w1 s XOR w2 s\<rparr>;
          s = s\<lparr>w0 := w0 s XOR w3 s\<rparr>;
          s = s\<lparr>w2 := w2 s XOR t\<rparr>;
          s = s\<lparr>w3 := xoshiro256pp_rotl (w3 s) 45\<rparr>
      in (result, r\<lparr>xoshiro256pp_state := s\<rparr>))"

definition xoshiro256p_rotl :: "u64 \<Rightarrow> nat \<Rightarrow> u64" where
  "xoshiro256p_rotl x k = push_bit k x OR drop_bit (64 - k) x"

definition xoshiro256p_next :: "random_state \<Rightarrow> u64 \<times> random_state" where
  "xoshiro256p_next r =
     (let s = xoshiro256p_state r;
          result = w0 s + w3 s;
          t = push_bit 17 (w1 s);
          s = s\<lparr>w2 := w2 s XOR w0 s\<rparr>;
          s = s\<lparr>w3 := w3 s XOR w1 s\<rparr>;
          s = s\<lparr>w1 := w1 s XOR w2 s\<rparr>;
          s = s\<lparr>w0 := w0 s XOR w3 s\<rparr>;
          s = s\<lparr>w2 := w2 s XOR t\<rparr>;
          s = s\<lparr>w3 := xoshiro256p_rotl (w3 s) 45\<rparr>
      in (result, r\<lparr>xoshiro256p_state := s\<rparr>))"

text \<open>
  \<^verbatim>\<open>xoshiro256p_jump\<close> and \<^verbatim>\<open>xoshiro256p_longjump\<close> have the same body and differ in their
  table only. The body of the inner loop, for the table word \<^verbatim>\<open>JUMP[i]\<close> and the bit b:
  \<^verbatim>\<open>if (JUMP[i] & UINT64_C(1) << b) { s0 ^= xoshiro256p_state[0]; ... } next();\<close>
  The call is to \<^verbatim>\<open>next\<close>, the draw of xoshiro256++.
\<close>

definition JUMP :: "u64 list" where
  "JUMP = [0x180ec6d33cfd0aba, 0xd5a61266f0c9392c, 0xa9582618e03fc9aa, 0x39abdc4529b1661c]"

definition LONG_JUMP :: "u64 list" where
  "LONG_JUMP = [0x76e15d3efefdcbbf, 0xc5004e441c522fb3, 0x77710069854ee241, 0x39109bb02acbe635]"

definition xoshiro256p_jump_bit ::
  "u64 \<Rightarrow> nat \<Rightarrow> words4 \<times> random_state \<Rightarrow> words4 \<times> random_state" where
  "xoshiro256p_jump_bit word b = (\<lambda>(acc, r).
     (let acc = (if word AND push_bit b 1 \<noteq> 0
                 then \<lparr>w0 = w0 acc XOR w0 (xoshiro256p_state r),
                       w1 = w1 acc XOR w1 (xoshiro256p_state r),
                       w2 = w2 acc XOR w2 (xoshiro256p_state r),
                       w3 = w3 acc XOR w3 (xoshiro256p_state r)\<rparr>
                 else acc)
      in (acc, snd (next_pp r))))"

definition xoshiro256p_jump_with :: "u64 list \<Rightarrow> random_state \<Rightarrow> random_state" where
  "xoshiro256p_jump_with table r =
     (let (acc, r) = fold (\<lambda>word. fold (xoshiro256p_jump_bit word) [0..<64]) table
                       (\<lparr>w0 = 0, w1 = 0, w2 = 0, w3 = 0\<rparr>, r)
      in r\<lparr>xoshiro256p_state := acc\<rparr>)"

definition xoshiro256p_jump :: "random_state \<Rightarrow> random_state" where
  "xoshiro256p_jump = xoshiro256p_jump_with JUMP"

definition xoshiro256p_longjump :: "random_state \<Rightarrow> random_state" where
  "xoshiro256p_longjump = xoshiro256p_jump_with LONG_JUMP"

text \<open>
  \<^verbatim>\<open>random_double\<close> returns \<^verbatim>\<open>(double) (x >> 11) * 0x1.0p-53\<close>. The shifted draw is below
  \<open>2 ^ 53\<close>, so its conversion to \<^verbatim>\<open>double\<close> and the scaling by a power of two are both
  exact, and the double returned is the real number of the model.
  \<^verbatim>\<open>random_int\<close> returns \<^verbatim>\<open>(unsigned int) (x>>32)\<close>, with \<^verbatim>\<open>unsigned int\<close> of 32 bits.
\<close>

definition random_double :: "random_state \<Rightarrow> real \<times> random_state" where
  "random_double r =
     (let (x, r) = xoshiro256p_next r
      in (real (unat (drop_bit 11 x)) * (1 / 2 ^ 53), r))"

definition random_int :: "random_state \<Rightarrow> 32 word \<times> random_state" where
  "random_int r =
     (let (x, r) = xoshiro256p_next r
      in (ucast (drop_bit 32 x), r))"

text \<open>
  \<^verbatim>\<open>random_initialize\<close> and what it takes from the outside: the bytes \<^verbatim>\<open>/dev/urandom\<close>
  delivers (\<open>None\<close> when \<^verbatim>\<open>fopen\<close> returns \<^verbatim>\<open>NULL\<close>), the clock \<^verbatim>\<open>(uint64_t) time(NULL)\<close>,
  \<^verbatim>\<open>sizeof(unsigned long)\<close> (8 on LP64 platforms, 4 on ILP32 ones), the indeterminate
  contents of the array \<^verbatim>\<open>char bytes[sizeof(uint64_t)]\<close> before the loop writes to it, and
  the byte order in which \<^verbatim>\<open>*((uint64_t *) bytes)\<close> reads the array.
  \<^verbatim>\<open>fgetc\<close> returns \<^verbatim>\<open>EOF\<close>, which is -1, at the end of the stream; its cast to \<^verbatim>\<open>char\<close>
  is the byte 0xFF. The result holds the state, the lines written to \<^verbatim>\<open>stderr\<close> and the
  bytes of the device left unread.
\<close>

record random_env =
  urandom :: "8 word list option"
  time_now :: u64
  sizeof_unsigned_long :: nat
  bytes_before :: "8 word list"
  big_endian :: bool

fun fgetc_char :: "8 word list \<Rightarrow> 8 word \<times> 8 word list" where
  "fgetc_char [] = (0xFF, [])"
| "fgetc_char (c # rest) = (c, rest)"

definition read_byte ::
  "nat \<Rightarrow> 8 word list \<times> 8 word list \<Rightarrow> 8 word list \<times> 8 word list" where
  "read_byte i = (\<lambda>(bytes, stream).
     let (c, stream) = fgetc_char stream in (bytes[i := c], stream))"

definition u64_of_bytes :: "bool \<Rightarrow> 8 word list \<Rightarrow> u64" where
  "u64_of_bytes be bytes = (if be then word_rcat bytes else word_rcat (rev bytes))"

definition urandom_warning :: string where
  "urandom_warning =
     ''Warning: initializing random number generator using time-not recommended for production runs.''"

definition random_initialize ::
  "random_env \<Rightarrow> random_state \<Rightarrow> random_state \<times> string list \<times> 8 word list option" where
  "random_initialize env r =
     (let seed = time_now env;
          (seed, stderr, left) =
            (case urandom env of
               Some stream \<Rightarrow>
                 (let (bytes, stream) =
                        fold read_byte [0..<sizeof_unsigned_long env] (bytes_before env, stream)
                  in (u64_of_bytes (big_endian env) bytes, [], Some stream))
             | None \<Rightarrow> (seed, [urandom_warning], None));
          r = splitmix64_seed seed r;
          (z, r) = splitmix64_next r;
          r = r\<lparr>xoshiro256pp_state := (xoshiro256pp_state r)\<lparr>w0 := z\<rparr>\<rparr>;
          (z, r) = splitmix64_next r;
          r = r\<lparr>xoshiro256pp_state := (xoshiro256pp_state r)\<lparr>w1 := z\<rparr>\<rparr>;
          (z, r) = splitmix64_next r;
          r = r\<lparr>xoshiro256pp_state := (xoshiro256pp_state r)\<lparr>w2 := z\<rparr>\<rparr>;
          (z, r) = splitmix64_next r;
          r = r\<lparr>xoshiro256pp_state := (xoshiro256pp_state r)\<lparr>w3 := z\<rparr>\<rparr>;
          (z, r) = splitmix64_next r;
          r = r\<lparr>xoshiro256p_state := (xoshiro256p_state r)\<lparr>w0 := z\<rparr>\<rparr>;
          (z, r) = splitmix64_next r;
          r = r\<lparr>xoshiro256p_state := (xoshiro256p_state r)\<lparr>w1 := z\<rparr>\<rparr>;
          (z, r) = splitmix64_next r;
          r = r\<lparr>xoshiro256p_state := (xoshiro256p_state r)\<lparr>w2 := z\<rparr>\<rparr>;
          (z, r) = splitmix64_next r;
          r = r\<lparr>xoshiro256p_state := (xoshiro256p_state r)\<lparr>w3 := z\<rparr>\<rparr>
      in (r, stderr, left))"

subsection \<open>discretization.c: the discretization object and 1D Lagrange elements\<close>

text \<open>
  A runtime value is one of nil, a boolean, an integer, a float or a reference to a heap
  object. The C \<^verbatim>\<open>int\<close> of \<^verbatim>\<open>order\<close> and \<^verbatim>\<open>shape\<close> has 32 bits. It is modelled by \<open>int\<close>,
  with the values from \<^verbatim>\<open>INT_MIN\<close> to \<^verbatim>\<open>INT_MAX\<close> standing for themselves; the sum
  \<^verbatim>\<open>d->order+1\<close> of \<^verbatim>\<open>cgn_nodecount\<close> and the differences \<^verbatim>\<open>n-1\<close> of
  \<^verbatim>\<open>cgn_nodepositions\<close> and \<^verbatim>\<open>order-1\<close> of \<^verbatim>\<open>lagrange_constructor\<close> are wrapped around
  into that range, as two's-complement machine arithmetic does (C itself gives a signed
  sum that leaves the range no meaning). The type \<^verbatim>\<open>grade\<close> is declared outside the
  sources; the only grade this file passes is that of a line, and the model counts with
  a grade as with a number.
\<close>

definition INT_MAX :: int where
  "INT_MAX = 2147483647"

definition INT_MIN :: int where
  "INT_MIN = - 2147483648"

definition int_wrap :: "int \<Rightarrow> int" where
  "int_wrap x = (x + 2147483648) mod 4294967296 - 2147483648"

datatype morpho_value =
  MORPHO_NIL | MORPHO_BOOL bool | MORPHO_INTEGER int | MORPHO_FLOAT real | MORPHO_OBJECT nat

fun MORPHO_ISOBJECT :: "morpho_value \<Rightarrow> bool" where
  "MORPHO_ISOBJECT (MORPHO_OBJECT p) = True"
| "MORPHO_ISOBJECT v = False"

text \<open>
  \<^verbatim>\<open>typedef struct { char *label; int order; grade g; int *shape; } discretization;\<close>
  The pointer \<^verbatim>\<open>shape\<close> is \<open>None\<close> when it is \<^verbatim>\<open>NULL\<close>, and else the block it points to.
\<close>

record discretization =
  label :: string
  order :: int
  g :: int
  shape :: "int list option"

text \<open>
  The part of the machine the constructor works on: the discretization objects on the
  heap by address, the objects bound to the virtual machine, and the error the virtual
  machine holds (set by \<^verbatim>\<open>morpho_runtimeerror\<close>, which nothing in this file calls).
\<close>

record runtime =
  heap :: "nat \<Rightarrow> discretization option"
  bound :: "morpho_value list"
  err :: "string option"

text \<open>
  Three functions the file calls are defined outside the sources, and what they return
  is a parameter of the model:
  \<^item> \<^verbatim>\<open>morpho_valuetoint(v, &out)\<close>: \<open>Some n\<close> when it returns true and stores n;
    \<open>None\<close> when it returns false and leaves \<^verbatim>\<open>out\<close> as it was;
  \<^item> \<^verbatim>\<open>object_new\<close>: the address of the new object, or \<open>None\<close> for \<^verbatim>\<open>NULL\<close>;
  \<^item> \<^verbatim>\<open>MORPHO_MALLOC\<close>: whether it returns a block.
\<close>

record host =
  morpho_valuetoint :: "morpho_value \<Rightarrow> int option"
  object_new :: "nat option"
  morpho_malloc :: bool

text \<open>A call returns, or it writes through a null pointer or reads behind an array.\<close>

datatype 'a outcome = Fault | Result 'a

text \<open>
  Modelled from the spec: the macros \<^verbatim>\<open>MESH_GRADE_LINE\<close> (\<^verbatim>\<open>mesh.h\<close>) and
  \<^verbatim>\<open>LAGRANGE_CONSTRUCTORNAME\<close> (\<^verbatim>\<open>discretization.h\<close>) are not in the sources. The
  specification's glossary gives a line the grade 1, and its scenario 7 prints the label
  of a Lagrange discretization as \<^verbatim>\<open>lagrange\<close>.
\<close>

definition MESH_GRADE_LINE :: int where
  "MESH_GRADE_LINE = 1"

definition LAGRANGE_CONSTRUCTORNAME :: string where
  "LAGRANGE_CONSTRUCTORNAME = ''lagrange''"

text \<open>
  \<^verbatim>\<open>discretization_init\<close> sets all four fields and returns whether the block was
  allocated. The block has g + 1 entries of indeterminate contents (0 in the model;
  \<^verbatim>\<open>object_newdiscretization\<close> overwrites every one of them).
\<close>

definition discretization_init ::
  "host \<Rightarrow> string \<Rightarrow> int \<Rightarrow> int \<Rightarrow> discretization \<times> bool" where
  "discretization_init hst lbl ord grade =
     (let d = \<lparr>label = lbl, order = ord, g = grade,
                shape = (if morpho_malloc hst then Some (replicate (nat (grade + 1)) 0)
                         else None)\<rparr>
      in (d, shape d \<noteq> None))"

text \<open>
  \<^verbatim>\<open>object_newdiscretization\<close>: when \<^verbatim>\<open>object_new\<close> gives an object, the structure is
  initialised, the result of \<^verbatim>\<open>discretization_init\<close> is dropped, and the loop
  \<^verbatim>\<open>for (int i=0; i<=grade; i++) new->d.shape[i]=shape[i];\<close> runs grade + 1 times. Its
  first write faults when the block is \<^verbatim>\<open>NULL\<close>, and it reads behind the caller's array
  when that has fewer than grade + 1 entries.
\<close>

definition object_newdiscretization ::
  "host \<Rightarrow> runtime \<Rightarrow> string \<Rightarrow> int \<Rightarrow> int \<Rightarrow> int list
     \<Rightarrow> (nat option \<times> runtime) outcome" where
  "object_newdiscretization hst rt lbl ord grade shp =
     (case object_new hst of
        None \<Rightarrow> Result (None, rt)
      | Some new \<Rightarrow>
          (let (d, ok) = discretization_init hst lbl ord grade;
               count = nat (grade + 1)
           in if count = 0 then Result (Some new, rt\<lparr>heap := (heap rt)(new \<mapsto> d)\<rparr>)
              else (case shape d of
                      None \<Rightarrow> Fault
                    | Some block \<Rightarrow>
                        if length shp < count then Fault
                        else Result (Some new,
                               rt\<lparr>heap := (heap rt)(new \<mapsto>
                                  d\<lparr>shape := Some (fold (\<lambda>i b. b[i := shp ! i]) [0..<count]
                                                      block)\<rparr>)\<rparr>))))"

text \<open>
  \<^verbatim>\<open>morpho_bindobjects\<close> is defined outside the sources; the model records the objects it
  is given with the virtual machine.
\<close>

definition morpho_bindobjects :: "runtime \<Rightarrow> morpho_value list \<Rightarrow> runtime" where
  "morpho_bindobjects rt objs = rt\<lparr>bound := objs @ bound rt\<rparr>"

text \<open>
  \<^verbatim>\<open>lagrange_constructor(v, nargs, args)\<close>: \<open>args\<close> is the list of the \<^verbatim>\<open>nargs\<close> arguments
  of the call, and \<^verbatim>\<open>MORPHO_GETARG(args, 0)\<close> the first of them. The result of
  \<^verbatim>\<open>morpho_valuetoint\<close> is not looked at.
\<close>

definition lagrange_constructor ::
  "host \<Rightarrow> runtime \<Rightarrow> morpho_value list \<Rightarrow> (morpho_value \<times> runtime) outcome" where
  "lagrange_constructor hst rt args =
     (let out = MORPHO_NIL;
          ord = 1;
          ord = (if length args = 1
                 then (case morpho_valuetoint hst (args ! 0) of Some n \<Rightarrow> n | None \<Rightarrow> ord)
                 else ord);
          shp = [1, int_wrap (ord - 1)]
      in case object_newdiscretization hst rt LAGRANGE_CONSTRUCTORNAME ord MESH_GRADE_LINE shp of
           Fault \<Rightarrow> Fault
         | Result (new, rt) \<Rightarrow>
             (let out = (case new of Some p \<Rightarrow> MORPHO_OBJECT p | None \<Rightarrow> out);
                  rt = (if MORPHO_ISOBJECT out then morpho_bindobjects rt [out] else rt)
              in Result (out, rt)))"

text \<open>
  \<^verbatim>\<open>objectdiscretization_printfn\<close>: \<^verbatim>\<open>printf("<%s %i>", d->d.label, d->d.order);\<close>
  The function returns what it prints; \<open>printf_i\<close> is the conversion \<^verbatim>\<open>%i\<close>.
\<close>

fun decimal :: "nat \<Rightarrow> string" where
  "decimal n =
     (if n < 10 then [''0123456789'' ! n]
      else decimal (n div 10) @ [''0123456789'' ! (n mod 10)])"

declare decimal.simps [simp del]

definition printf_i :: "int \<Rightarrow> string" where
  "printf_i i = (if i < 0 then ''-'' @ decimal (nat (- i)) else decimal (nat i))"

definition objectdiscretization_printfn :: "discretization \<Rightarrow> string" where
  "objectdiscretization_printfn d = ''<'' @ label d @ '' '' @ printf_i (order d) @ ''>''"

text \<open>The type entry \<^verbatim>\<open>objectdiscretizationdefn\<close>, with its print function.\<close>

record objecttypedefn =
  printfn :: "discretization \<Rightarrow> string"

definition objectdiscretizationdefn :: objecttypedefn where
  "objectdiscretizationdefn = \<lparr>printfn = objectdiscretization_printfn\<rparr>"

text \<open>
  \<^verbatim>\<open>cgn_nodecount\<close>: \<^verbatim>\<open>return d->order+1;\<close> At the order \<^verbatim>\<open>INT_MAX\<close> the sum wraps around
  to \<^verbatim>\<open>INT_MIN\<close>.
\<close>

definition cgn_nodecount :: "discretization \<Rightarrow> int" where
  "cgn_nodecount d = int_wrap (order d + 1)"

text \<open>
  \<^verbatim>\<open>cgn_nodepositions\<close> computes \<^verbatim>\<open>((double) i)/(n-1)\<close> for every i from 0 below n, and
  for none when n is not positive. The model keeps the quotient as the real number the
  double approximates, and marks a division whose divisor is 0. The matrix \<^verbatim>\<open>out\<close> is
  the list of the elements \<^verbatim>\<open>matrix_setelement\<close> (defined outside the sources) has been
  asked to set, row and column first, in the order of the calls.
\<close>

datatype coordinate = Coordinate real | Division_by_zero

definition double_div :: "int \<Rightarrow> int \<Rightarrow> coordinate" where
  "double_div i m =
     (if m = 0 then Division_by_zero else Coordinate (real_of_int i / real_of_int m))"

type_synonym objectmatrix = "((nat \<times> nat) \<times> coordinate) list"

definition matrix_setelement :: "objectmatrix \<Rightarrow> nat \<Rightarrow> nat \<Rightarrow> coordinate \<Rightarrow> objectmatrix" where
  "matrix_setelement m row col v = m @ [((row, col), v)]"

definition cgn_nodepositions :: "discretization \<Rightarrow> objectmatrix \<Rightarrow> bool \<times> objectmatrix" where
  "cgn_nodepositions d out =
     (let n = cgn_nodecount d
      in (True,
          fold (\<lambda>i m. matrix_setelement m 0 i (double_div (int i) (int_wrap (n - 1))))
            [0..<nat n] out))"

subsection \<open>Notions the properties are stated with\<close>

paragraph \<open>Linearization\<close>

text \<open>The linearizations of the parents of a class, in the order of the parents.\<close>

definition parent_lins :: "class_store \<Rightarrow> nat \<Rightarrow> nat list list" where
  "parent_lins h k = map (\<lambda>p. linearization (h p)) (parents (h k))"

text \<open>
  The specification's merge, in its words: the inputs are the parents' linearizations
  followed by the list of the parents, and a merge of them is valid when every element
  of every input is in the output and the output keeps the order of every input, which
  is to say that every input is a subsequence of the output.
\<close>

definition spec_merge_inputs :: "class_store \<Rightarrow> nat \<Rightarrow> nat list list" where
  "spec_merge_inputs h k = parent_lins h k @ [parents (h k)]"

definition spec_valid_merge :: "'a list list \<Rightarrow> 'a list \<Rightarrow> bool" where
  "spec_valid_merge inputs out = list_all (\<lambda>l. subseq l out) inputs"

text \<open>
  The states the loop of \<^verbatim>\<open>_linearize\<close> passes through, from the lists and the output
  it starts with: one more state for every turn whose merge succeeds.
\<close>

inductive merge_reach :: "'a list list \<Rightarrow> 'a list \<Rightarrow> 'a list list \<Rightarrow> 'a list \<Rightarrow> bool"
  for lin0 out0 where
  start: "merge_reach lin0 out0 lin0 out0"
| step: "merge_reach lin0 out0 lin out \<Longrightarrow> \<not> done_c3 lin \<Longrightarrow>
         merge lin out = (True, lin', out') \<Longrightarrow> merge_reach lin0 out0 lin' out'"

code_pred merge_reach .

text \<open>
  The invariant of the loop, for inputs \<open>Ls\<close> without repetitions: what has been added to
  the output so far has no repetition and comes from the inputs, and every list is its
  input without the elements added, which are the first elements of that input.
\<close>

definition merge_inv :: "'a list list \<Rightarrow> 'a list \<Rightarrow> 'a list list \<Rightarrow> bool" where
  "merge_inv Ls added lin =
     (distinct added \<and> set added \<subseteq> \<Union>(set ` set Ls)
      \<and> list_all2 (\<lambda>L l. distinct L \<and> L = filter (\<lambda>x. x \<in> set L) added @ l) Ls lin)"

text \<open>
  Four hierarchies. X; Y with parent X; Z with parents X, Y, where X and Y have been
  linearized, in that order. The diamond A; B and C with parent A; D with parents B, C,
  where A, B and C have been linearized. O; E and F with parent O; G with parents
  E, F; H with parents F, E; N with parents G, H, where all but N have been linearized.
  And P; Q; R with parents P, Q, where P and Q have been linearized.
\<close>

abbreviation (input) class_X :: nat where "class_X \<equiv> 10"
abbreviation (input) class_Y :: nat where "class_Y \<equiv> 11"
abbreviation (input) class_Z :: nat where "class_Z \<equiv> 12"
abbreviation (input) class_A :: nat where "class_A \<equiv> 20"
abbreviation (input) class_B :: nat where "class_B \<equiv> 21"
abbreviation (input) class_C :: nat where "class_C \<equiv> 22"
abbreviation (input) class_D :: nat where "class_D \<equiv> 23"
abbreviation (input) class_O :: nat where "class_O \<equiv> 30"
abbreviation (input) class_E :: nat where "class_E \<equiv> 31"
abbreviation (input) class_F :: nat where "class_F \<equiv> 32"
abbreviation (input) class_G :: nat where "class_G \<equiv> 33"
abbreviation (input) class_H :: nat where "class_H \<equiv> 34"
abbreviation (input) class_N :: nat where "class_N \<equiv> 35"
abbreviation (input) class_P :: nat where "class_P \<equiv> 40"
abbreviation (input) class_Q :: nat where "class_Q \<equiv> 41"
abbreviation (input) class_R :: nat where "class_R \<equiv> 42"

definition class_with_parents :: "string \<Rightarrow> nat list \<Rightarrow> objectclass" where
  "class_with_parents nm ps = (object_newclass nm)\<lparr>parents := ps\<rparr>"

definition xyz_parents :: class_store where
  "xyz_parents =
     (\<lambda>_. object_newclass ''X'')
       (class_Y := class_with_parents ''Y'' [class_X],
        class_Z := class_with_parents ''Z'' [class_X, class_Y])"

definition xyz :: class_store where
  "xyz = snd (class_linearize (snd (class_linearize xyz_parents class_X)) class_Y)"

definition diamond_parents :: class_store where
  "diamond_parents =
     (\<lambda>_. object_newclass ''A'')
       (class_B := class_with_parents ''B'' [class_A],
        class_C := class_with_parents ''C'' [class_A],
        class_D := class_with_parents ''D'' [class_B, class_C])"

definition diamond :: class_store where
  "diamond =
     snd (class_linearize (snd (class_linearize (snd (class_linearize diamond_parents class_A))
       class_B)) class_C)"

definition tangle_parents :: class_store where
  "tangle_parents =
     (\<lambda>_. object_newclass ''O'')
       (class_E := class_with_parents ''E'' [class_O],
        class_F := class_with_parents ''F'' [class_O],
        class_G := class_with_parents ''G'' [class_E, class_F],
        class_H := class_with_parents ''H'' [class_F, class_E],
        class_N := class_with_parents ''N'' [class_G, class_H])"

definition tangle :: class_store where
  "tangle =
     snd (class_linearize (snd (class_linearize (snd (class_linearize (snd (class_linearize
       (snd (class_linearize tangle_parents class_O)) class_E)) class_F)) class_G)) class_H)"

definition roots_parents :: class_store where
  "roots_parents =
     (\<lambda>_. object_newclass ''P'')
       (class_Q := object_newclass ''Q'',
        class_R := class_with_parents ''R'' [class_P, class_Q])"

definition roots :: class_store where
  "roots = snd (class_linearize (snd (class_linearize roots_parents class_P)) class_Q)"

paragraph \<open>Random engine\<close>

definition zero4 :: words4 where
  "zero4 = \<lparr>w0 = 0, w1 = 0, w2 = 0, w3 = 0\<rparr>"

definition xor4 :: "words4 \<Rightarrow> words4 \<Rightarrow> words4" where
  "xor4 a p = \<lparr>w0 = w0 a XOR w0 p, w1 = w1 a XOR w1 p, w2 = w2 a XOR w2 p, w3 = w3 a XOR w3 p\<rparr>"

text \<open>The number of bits b below 64 of a table word for which the jump loop takes its branch.\<close>

definition flips :: "u64 \<Rightarrow> nat" where
  "flips w = length (filter (\<lambda>b. w AND push_bit b 1 \<noteq> 0) [0..<64])"

text \<open>The state after n draws of xoshiro256++, and after n draws of xoshiro256+.\<close>

primrec draws_pp :: "nat \<Rightarrow> random_state \<Rightarrow> random_state" where
  "draws_pp 0 r = r"
| "draws_pp (Suc n) r = draws_pp n (snd (next_pp r))"

primrec draws_p :: "nat \<Rightarrow> random_state \<Rightarrow> random_state" where
  "draws_p 0 r = r"
| "draws_p (Suc n) r = draws_p n (snd (xoshiro256p_next r))"

text \<open>
  Output number k of splitmix64, counted from 0, and the state in which both generators
  hold the first eight outputs that follow a seed: xoshiro256++ the outputs 0 to 3 and
  xoshiro256+ the outputs 4 to 7.
\<close>

primrec splitmix64_output :: "nat \<Rightarrow> random_state \<Rightarrow> u64" where
  "splitmix64_output 0 r = fst (splitmix64_next r)"
| "splitmix64_output (Suc k) r = splitmix64_output k (snd (splitmix64_next r))"

definition splitmix64_expand :: "u64 \<Rightarrow> random_state \<Rightarrow> random_state" where
  "splitmix64_expand seed r =
     (let s = splitmix64_seed seed r
      in \<lparr>splitmix64_state = seed + 8 * 0x9E3779B97F4A7C15,
          xoshiro256pp_state = \<lparr>w0 = splitmix64_output 0 s, w1 = splitmix64_output 1 s,
                                 w2 = splitmix64_output 2 s, w3 = splitmix64_output 3 s\<rparr>,
          xoshiro256p_state = \<lparr>w0 = splitmix64_output 4 s, w1 = splitmix64_output 5 s,
                                w2 = splitmix64_output 6 s, w3 = splitmix64_output 7 s\<rparr>\<rparr>)"

definition mix64 :: "u64 \<Rightarrow> u64" where
  "mix64 z =
     (let z = (z XOR drop_bit 30 z) * 0xBF58476D1CE4E5B9;
          z = (z XOR drop_bit 27 z) * 0x94D049BB133111EB
      in z XOR drop_bit 31 z)"

text \<open>
  The seed: the clock when the device cannot be opened, and else the word read from the
  byte array after the first \<^verbatim>\<open>sizeof(unsigned long)\<close> bytes of the device have been
  stored in its first places.
\<close>

definition random_seed :: "random_env \<Rightarrow> u64" where
  "random_seed env =
     (case urandom env of
        None \<Rightarrow> time_now env
      | Some stream \<Rightarrow>
          u64_of_bytes (big_endian env)
            (take (sizeof_unsigned_long env) stream
             @ drop (sizeof_unsigned_long env) (bytes_before env)))"

text \<open>
  A state whose words are 1, 2, 3, 4 in both generators; an LP64 little-endian platform
  whose device delivers a given stream; the same platform without the device.
\<close>

definition rng_1234 :: random_state where
  "rng_1234 =
     \<lparr>splitmix64_state = 0, xoshiro256pp_state = \<lparr>w0 = 1, w1 = 2, w2 = 3, w3 = 4\<rparr>,
      xoshiro256p_state = \<lparr>w0 = 1, w1 = 2, w2 = 3, w3 = 4\<rparr>\<rparr>"

definition lp64_env :: "8 word list \<Rightarrow> random_env" where
  "lp64_env stream =
     \<lparr>urandom = Some stream, time_now = 1700000000, sizeof_unsigned_long = 8,
      bytes_before = replicate 8 0, big_endian = False\<rparr>"

definition no_urandom_env :: random_env where
  "no_urandom_env =
     \<lparr>urandom = None, time_now = 1700000000, sizeof_unsigned_long = 8,
      bytes_before = replicate 8 0, big_endian = False\<rparr>"

paragraph \<open>Discretization\<close>

text \<open>Whether \<^verbatim>\<open>cgn_nodepositions\<close> divides by zero for one of the nodes it writes.\<close>

definition divides_by_zero :: "discretization \<Rightarrow> bool" where
  "divides_by_zero d = (Division_by_zero \<in> snd ` set (snd (cgn_nodepositions d [])))"

text \<open>The discretization the Lagrange constructor builds for an order.\<close>

definition lagrange_of_order :: "int \<Rightarrow> discretization" where
  "lagrange_of_order n =
     \<lparr>label = LAGRANGE_CONSTRUCTORNAME, order = n, g = MESH_GRADE_LINE,
      shape = Some [1, int_wrap (n - 1)]\<rparr>"

text \<open>
  A host on which allocations succeed, the new object is at address 7, and
  \<^verbatim>\<open>morpho_valuetoint\<close> converts integer values and no others; and a machine with an
  empty heap.
\<close>

definition integer_host :: host where
  "integer_host =
     \<lparr>morpho_valuetoint = (\<lambda>v. case v of MORPHO_INTEGER n \<Rightarrow> Some n | _ \<Rightarrow> None),
      object_new = Some 7, morpho_malloc = True\<rparr>"

definition empty_runtime :: runtime where
  "empty_runtime = \<lparr>heap = Map.empty, bound = [], err = None\<rparr>"

section \<open>Properties\<close>

subsection \<open>The precedence ladder\<close>

lemma prec_of_place: "prec_of r = int (place spec_ladder r)"
  by (cases r) (simp_all add: spec_ladder_def PREC_defs)

text \<open>
  Claim C8. The precedence constants of the parser form a strictly increasing ladder in
  the order PREC_NONE, PREC_LOWEST, PREC_ASSIGN, PREC_OR, PREC_AND, PREC_EQUALITY,
  PREC_COMPARISON, PREC_RANGE, PREC_TERM, PREC_FACTOR, PREC_UNARY, PREC_POW, PREC_CALL,
  PREC_HIGHEST, and comparing the precedences of two rungs gives the same answer as
  comparing their places in the specification's ladder.
\<close>

theorem precedence_ladder:
  "PREC_NONE < PREC_LOWEST \<and> PREC_LOWEST < PREC_ASSIGN \<and> PREC_ASSIGN < PREC_OR
   \<and> PREC_OR < PREC_AND \<and> PREC_AND < PREC_EQUALITY \<and> PREC_EQUALITY < PREC_COMPARISON
   \<and> PREC_COMPARISON < PREC_RANGE \<and> PREC_RANGE < PREC_TERM \<and> PREC_TERM < PREC_FACTOR
   \<and> PREC_FACTOR < PREC_UNARY \<and> PREC_UNARY < PREC_POW \<and> PREC_POW < PREC_CALL
   \<and> PREC_CALL < PREC_HIGHEST
   \<and> (prec_of a < prec_of b) = (place spec_ladder a < place spec_ladder b)
   \<and> (prec_of a = prec_of b) = (a = b)"
proof -
  have chain: "PREC_NONE < PREC_LOWEST \<and> PREC_LOWEST < PREC_ASSIGN \<and> PREC_ASSIGN < PREC_OR
   \<and> PREC_OR < PREC_AND \<and> PREC_AND < PREC_EQUALITY \<and> PREC_EQUALITY < PREC_COMPARISON
   \<and> PREC_COMPARISON < PREC_RANGE \<and> PREC_RANGE < PREC_TERM \<and> PREC_TERM < PREC_FACTOR
   \<and> PREC_FACTOR < PREC_UNARY \<and> PREC_UNARY < PREC_POW \<and> PREC_POW < PREC_CALL
   \<and> PREC_CALL < PREC_HIGHEST"
    by (simp add: PREC_defs)
  have order: "(prec_of a < prec_of b) = (place spec_ladder a < place spec_ladder b)"
    by (simp add: prec_of_place)
  have inj: "(prec_of a = prec_of b) = (a = b)"
    by (cases a; cases b; simp add: PREC_defs)
  from chain order inj show ?thesis by blast
qed

subsection \<open>Class linearization\<close>

lemma intail_from_iff: "intail_from xs v \<longleftrightarrow> v \<in> set xs"
  by (induction xs) auto

lemma intail_iff: "intail l v \<longleftrightarrow> v \<in> set (tl l)"
  by (cases l) (simp_all add: intail_def intail_from_iff)

lemma inanytail_iff: "inanytail ins v \<longleftrightarrow> (\<exists>l\<in>set ins. v \<in> set (tl l))"
  by (induction ins) (auto simp: intail_iff)

lemma remove_notin: "v \<notin> set l \<Longrightarrow> remove l v = l"
  by (induction l v rule: remove.induct) (auto split: list.splits)

lemma remove_head: "v \<notin> set t \<Longrightarrow> remove (v # t) v = t"
  by (cases t) (auto simp: remove_notin)

lemma done_from_iff: "done_from n ins \<longleftrightarrow> (n = 0 \<or> ins ! 0 = [])"
  by (induction n) auto

lemma done_c3_iff: "done_c3 ins \<longleftrightarrow> (ins = [] \<or> hd ins = [])"
  by (cases ins) (auto simp: done_c3_def done_from_iff)

lemma init_Nil: "init parent [] = linearization parent"
  by (simp add: init_def)

text \<open>The loop, one turn at a time.\<close>

lemma loop_exit:
  "\<not> (success \<and> \<not> done_c3 lin) \<Longrightarrow> linearize_loop success lin out = (success, out)"
  by (subst linearize_loop.simps) auto

lemma loop_step:
  "success \<Longrightarrow> \<not> done_c3 lin \<Longrightarrow>
   linearize_loop success lin out =
     (case merge lin out of (success', lin', out') \<Rightarrow> linearize_loop success' lin' out')"
  by (subst linearize_loop.simps) simp

lemma loop_stall:
  "success \<Longrightarrow> \<not> done_c3 lin \<Longrightarrow> merge_from lin lin = None \<Longrightarrow>
   linearize_loop success lin out = (False, out)"
  by (simp add: loop_step merge_def loop_exit)

lemma loop_merge:
  "success \<Longrightarrow> \<not> done_c3 lin \<Longrightarrow> merge_from lin lin = Some h \<Longrightarrow>
   linearize_loop success lin out = linearize_loop True (map (\<lambda>l. remove l h) lin) (out @ [h])"
  by (simp add: loop_step merge_def)

lemma loop_unfold:
  "linearize_loop True lin out =
     (if done_c3 lin then (True, out)
      else (case merge_from lin lin of
              None \<Rightarrow> (False, out)
            | Some h \<Rightarrow> linearize_loop True (map (\<lambda>l. remove l h) lin) (out @ [h])))"
  by (auto simp: loop_exit loop_stall loop_merge split: option.splits)

text \<open>The invariant holds at the start and is kept by a merge that succeeds.\<close>

lemma list_all2_in_right:
  "list_all2 P xs ys \<Longrightarrow> y \<in> set ys \<Longrightarrow> \<exists>x\<in>set xs. P x y"
  by (induction rule: list_all2_induct) auto

lemma list_all2_in_left:
  "list_all2 P xs ys \<Longrightarrow> x \<in> set xs \<Longrightarrow> \<exists>y\<in>set ys. P x y"
  by (induction rule: list_all2_induct) auto

lemma list_all2_map_right:
  "list_all2 P xs ys \<Longrightarrow> (\<And>x y. P x y \<Longrightarrow> y \<in> set ys \<Longrightarrow> Q x (f y))
   \<Longrightarrow> list_all2 Q xs (map f ys)"
  by (induction rule: list_all2_induct) auto

lemma merge_inv_pair:
  assumes L: "distinct L" "L = filter (\<lambda>x. x \<in> set L) added @ l"
    and h: "h \<notin> set added" "h \<notin> set (tl l)"
  shows "L = filter (\<lambda>x. x \<in> set L) (added @ [h]) @ remove l h"
proof (cases "h \<in> set L")
  case True
  have "set L = set (filter (\<lambda>x. x \<in> set L) added) \<union> set l"
    using L(2) by (metis set_append)
  with True h(1) have "h \<in> set l" by auto
  with h(2) obtain t where l: "l = h # t" and "h \<notin> set t"
    by (cases l) auto
  then have "remove l h = t" using remove_head [of h t] by blast
  with True l L(2) show ?thesis by simp
next
  case False
  have "set L = set (filter (\<lambda>x. x \<in> set L) added) \<union> set l"
    using L(2) by (metis set_append)
  with False have "h \<notin> set l" by auto
  then have "remove l h = l" by (rule remove_notin)
  with False L(2) show ?thesis by simp
qed

lemma merge_inv_step:
  assumes inv: "merge_inv Ls added lin" and m: "merge_from lin lin = Some h"
  shows "merge_inv Ls (added @ [h]) (map (\<lambda>l. remove l h) lin)"
proof -
  from m obtain t where ht: "h # t \<in> set lin" and nt: "\<not> inanytail lin h"
    by (auto dest: merge_from_head)
  from inv have all2:
    "list_all2 (\<lambda>L l. distinct L \<and> L = filter (\<lambda>x. x \<in> set L) added @ l) Ls lin"
    and d: "distinct added" and sub: "set added \<subseteq> \<Union>(set ` set Ls)"
    by (auto simp: merge_inv_def)
  from list_all2_in_right [OF all2 ht] obtain L where L: "L \<in> set Ls" "distinct L"
    "L = filter (\<lambda>x. x \<in> set L) added @ (h # t)" by auto
  from L(3) have hL: "h \<in> set L" by (metis in_set_conv_decomp)
  from L(2) L(3) have "h \<notin> set (filter (\<lambda>x. x \<in> set L) added)"
    by (metis disjoint_iff distinct_append list.set_intros(1))
  with hL have fresh: "h \<notin> set added" by simp
  have "list_all2 (\<lambda>L l. distinct L \<and> L = filter (\<lambda>x. x \<in> set L) (added @ [h]) @ l) Ls
          (map (\<lambda>l. remove l h) lin)"
  proof (rule list_all2_map_right [OF all2])
    fix L' l
    assume P: "distinct L' \<and> L' = filter (\<lambda>x. x \<in> set L') added @ l" and l: "l \<in> set lin"
    from nt l have "h \<notin> set (tl l)" by (auto simp: inanytail_iff)
    with P fresh
    show "distinct L' \<and> L' = filter (\<lambda>x. x \<in> set L') (added @ [h]) @ remove l h"
      using merge_inv_pair [of L' added l h] by blast
  qed
  moreover from d fresh have "distinct (added @ [h])" by simp
  moreover from sub hL L(1) have "set (added @ [h]) \<subseteq> \<Union>(set ` set Ls)" by auto
  ultimately show ?thesis by (simp add: merge_inv_def)
qed

lemma merge_inv_init: "list_all distinct Ls \<Longrightarrow> merge_inv Ls [] Ls"
  by (simp add: merge_inv_def list_all2_same list_all_iff)

lemma merge_inv_prefix:
  "merge_inv Ls added lin \<Longrightarrow> list_all (\<lambda>L. prefix (filter (\<lambda>c. c \<in> set L) added) L) Ls"
  unfolding merge_inv_def list_all_iff
  by (auto dest!: list_all2_in_left simp: prefix_def)

lemma linearize_loop_inv:
  "linearize_loop success lin (out0 @ added) = (s, res) \<Longrightarrow> merge_inv Ls added lin
   \<Longrightarrow> \<exists>added' lin'. res = out0 @ added' \<and> merge_inv Ls added' lin'"
proof (induction success lin "out0 @ added" arbitrary: added rule: linearize_loop.induct)
  case (1 success lin)
  show ?case
  proof (cases "success \<and> \<not> done_c3 lin")
    case False
    with 1(2) have "res = out0 @ added" by (simp add: loop_exit)
    with 1(3) show ?thesis by blast
  next
    case True
    show ?thesis
    proof (cases "merge_from lin lin")
      case None
      with True 1(2) have "res = out0 @ added"
        by (simp add: loop_stall)
      with 1(3) show ?thesis by blast
    next
      case (Some h)
      then have m: "merge lin (out0 @ added)
          = (True, map (\<lambda>l. remove l h) lin, out0 @ (added @ [h]))"
        by (simp add: merge_def)
      from True Some 1(2)
      have run: "linearize_loop True (map (\<lambda>l. remove l h) lin) (out0 @ (added @ [h])) = (s, res)"
        by (simp add: loop_merge)
      from 1(3) Some have "merge_inv Ls (added @ [h]) (map (\<lambda>l. remove l h) lin)"
        by (rule merge_inv_step)
      with "1.hyps" [OF True m [symmetric] refl run] show ?thesis by simp
    qed
  qed
qed

lemma linearize_loop_prefix:
  "linearize_loop success lin out = (s, res) \<Longrightarrow> prefix out res"
proof (induction success lin out rule: linearize_loop.induct)
  case (1 success lin out)
  show ?case
  proof (cases "success \<and> \<not> done_c3 lin")
    case False
    with 1(2) show ?thesis by (simp add: loop_exit)
  next
    case True
    show ?thesis
    proof (cases "merge_from lin lin")
      case None
      with True 1(2) show ?thesis by (simp add: loop_stall)
    next
      case (Some h)
      then have m: "merge lin out = (True, map (\<lambda>l. remove l h) lin, out @ [h])"
        by (simp add: merge_def)
      from True Some 1(2)
      have "linearize_loop True (map (\<lambda>l. remove l h) lin) (out @ [h]) = (s, res)"
        by (simp add: loop_merge)
      with "1.IH" [OF True m [symmetric] refl] have "prefix (out @ [h]) res" by simp
      then show ?thesis by (rule append_prefixD)
    qed
  qed
qed

text \<open>The loop gives the same result from every state it passes through.\<close>

lemma merge_reach_loop:
  "merge_reach lin0 out0 lin out \<Longrightarrow>
   linearize_loop True lin0 out0 = linearize_loop True lin out"
  by (induction rule: merge_reach.induct) (simp_all add: loop_step)

lemma merge_reach_stall:
  assumes "merge_reach lin0 out0 lin out" and "\<not> done_c3 lin" and "\<not> fst (merge lin out)"
  shows "linearize_loop True lin0 out0 = (False, out)"
proof -
  from assms(3) have "merge_from lin lin = None"
    by (auto simp: merge_def split: option.splits)
  with assms(2) have "linearize_loop True lin out = (False, out)" by (simp add: loop_stall)
  with merge_reach_loop [OF assms(1)] show ?thesis by simp
qed

lemma merge_reach_Nil: "merge_reach [] out0 lin out \<Longrightarrow> lin = []"
  by (induction rule: merge_reach.induct) (simp_all add: done_c3_iff)

text \<open>\<^verbatim>\<open>class_linearize\<close> in one equation.\<close>

lemma class_linearize_eq:
  "class_linearize h k =
     (if parents (h k) = [] then (True, h(k := (h k)\<lparr>linearization := [k]\<rparr>))
      else (let (success, out) =
                  linearize_loop True
                    (map (\<lambda>p. if p = k then [k] else linearization (h p)) (parents (h k))) [k]
            in (success, h(k := (h k)\<lparr>linearization := out\<rparr>))))"
  by (simp add: class_linearize_def linearize_def init_Nil Let_def if_distrib [of linearization]
      cong: if_cong)

lemma class_linearize_parents:
  "k \<notin> set (parents (h k)) \<Longrightarrow> parents (h k) \<noteq> [] \<Longrightarrow>
   class_linearize h k =
     (let (success, out) = linearize_loop True (parent_lins h k) [k]
      in (success, h(k := (h k)\<lparr>linearization := out\<rparr>)))"
proof -
  assume k: "k \<notin> set (parents (h k))" and ne: "parents (h k) \<noteq> []"
  have "map (\<lambda>p. if p = k then [k] else linearization (h p)) (parents (h k)) = parent_lins h k"
    unfolding parent_lins_def using k by (intro map_cong) auto
  with ne show ?thesis by (simp add: class_linearize_eq)
qed

lemma class_linearize_head:
  "\<exists>rest. linearization (snd (class_linearize h k) k) = k # rest"
proof (cases "parents (h k) = []")
  case True
  then show ?thesis by (simp add: class_linearize_eq)
next
  case False
  obtain s res where r: "linearize_loop True
       (map (\<lambda>p. if p = k then [k] else linearization (h p)) (parents (h k))) [k] = (s, res)"
    by (cases "linearize_loop True
       (map (\<lambda>p. if p = k then [k] else linearization (h p)) (parents (h k))) [k]")
  then have "prefix [k] res" by (rule linearize_loop_prefix)
  then obtain rest where "res = k # rest" by (auto simp: prefix_def)
  with False r show ?thesis by (simp add: class_linearize_eq)
qed

text \<open>The three hierarchies, evaluated.\<close>

lemmas hierarchy_simps =
  object_newclass_def class_with_parents_def class_linearize_eq loop_unfold done_c3_def
  intail_def

lemma xyz_facts:
  "parents (xyz class_Z) = [class_X, class_Y]" "linearization (xyz class_X) = [class_X]"
  "linearization (xyz class_Y) = [class_Y, class_X]"
  by (simp_all add: xyz_def xyz_parents_def hierarchy_simps)

lemma xyz_run:
  "linearize_loop True [[class_X], [class_Y, class_X]] [class_Z]
     = (True, [class_Z, class_Y, class_X])"
  by (simp add: loop_unfold done_c3_def intail_def)

lemma xyz_result:
  "fst (class_linearize xyz class_Z)"
  "linearization (snd (class_linearize xyz class_Z) class_Z) = [class_Z, class_Y, class_X]"
  by (simp_all add: class_linearize_eq xyz_facts xyz_run)

lemma diamond_facts:
  "parents (diamond class_D) = [class_B, class_C]"
  "linearization (diamond class_B) = [class_B, class_A]"
  "linearization (diamond class_C) = [class_C, class_A]"
  by (simp_all add: diamond_def diamond_parents_def hierarchy_simps)

lemma diamond_run:
  "linearize_loop True [[class_B, class_A], [class_C, class_A]] [class_D]
     = (True, [class_D, class_B, class_C, class_A])"
  by (simp add: loop_unfold done_c3_def intail_def)

lemma diamond_result:
  "fst (class_linearize diamond class_D)"
  "linearization (snd (class_linearize diamond class_D) class_D)
     = [class_D, class_B, class_C, class_A]"
  by (simp_all add: class_linearize_eq diamond_facts diamond_run)

lemma tangle_facts:
  "parents (tangle class_N) = [class_G, class_H]"
  "linearization (tangle class_G) = [class_G, class_E, class_F, class_O]"
  "linearization (tangle class_H) = [class_H, class_F, class_E, class_O]"
  by (simp_all add: tangle_def tangle_parents_def hierarchy_simps)

lemma tangle_reach:
  "merge_reach [[class_G, class_E, class_F, class_O], [class_H, class_F, class_E, class_O]]
     [class_N]
     [[class_E, class_F, class_O], [class_F, class_E, class_O]] [class_N, class_G, class_H]"
proof -
  let ?lin0 = "[[class_G, class_E, class_F, class_O], [class_H, class_F, class_E, class_O]]"
  have 0: "merge_reach ?lin0 [class_N] ?lin0 [class_N]" by (rule merge_reach.start)
  have m1: "merge ?lin0 [class_N]
      = (True, [[class_E, class_F, class_O], [class_H, class_F, class_E, class_O]],
         [class_N, class_G])"
    by (simp add: merge_def intail_def)
  have 1: "merge_reach ?lin0 [class_N]
      [[class_E, class_F, class_O], [class_H, class_F, class_E, class_O]] [class_N, class_G]"
    by (rule merge_reach.step [OF 0 _ m1]) (simp add: done_c3_def)
  have m2: "merge [[class_E, class_F, class_O], [class_H, class_F, class_E, class_O]]
        [class_N, class_G]
      = (True, [[class_E, class_F, class_O], [class_F, class_E, class_O]],
         [class_N, class_G, class_H])"
    by (simp add: merge_def intail_def)
  show ?thesis
    by (rule merge_reach.step [OF 1 _ m2]) (simp add: done_c3_def)
qed

lemma tangle_stall:
  "\<not> done_c3 [[class_E, class_F, class_O], [class_F, class_E, class_O]]"
  "\<not> fst (merge [[class_E, class_F, class_O], [class_F, class_E, class_O]]
            [class_N, class_G, class_H])"
  by (simp_all add: done_c3_def merge_def intail_def)

text \<open>
  The test of \<^verbatim>\<open>_done\<close> reads the first list only, so the loop ends as soon as the
  linearization of the first parent is used up. For R with the parents P and Q, which
  have no parents, the call returns success and leaves the linearization R, P: Q is not
  in it.
\<close>

lemma class_linearize_two_roots:
  "parent_lins roots class_R = [[class_P], [class_Q]]
   \<and> fst (class_linearize roots class_R)
   \<and> linearization (snd (class_linearize roots class_R) class_R) = [class_R, class_P]"
proof -
  have f: "parents (roots class_R) = [class_P, class_Q]"
    "linearization (roots class_P) = [class_P]" "linearization (roots class_Q) = [class_Q]"
    by (simp_all add: roots_def roots_parents_def hierarchy_simps)
  have "linearize_loop True [[class_P], [class_Q]] [class_R] = (True, [class_R, class_P])"
    by (simp add: loop_unfold done_c3_def intail_def)
  with f show ?thesis by (simp add: class_linearize_eq parent_lins_def)
qed

text \<open>
  Claim C1, as the code has it. When \<^verbatim>\<open>class_linearize\<close> has returned success on a class,
  the linearization of the class begins with the class itself. When moreover the class
  is not its own parent and the linearizations of its parents have no repetitions, the
  remainder has no repetition, holds elements of the parents' linearizations only, and the
  elements of each parent's linearization that are in the remainder stand there in
  that linearization's order, as its first elements; the list of the parents is not an
  input of the merge. And whenever a merge step that the loop runs finds no good head,
  \<^verbatim>\<open>class_linearize\<close> returns failure. (Whether every element of every parent's
  linearization is in the remainder is not stated.)
\<close>

theorem class_linearize_merge:
  "(fst (class_linearize h k) \<longrightarrow>
      (\<exists>rest. linearization (snd (class_linearize h k) k) = k # rest
         \<and> (k \<notin> set (parents (h k)) \<and> list_all distinct (parent_lins h k) \<longrightarrow>
              distinct rest \<and> set rest \<subseteq> \<Union>(set ` set (parent_lins h k))
              \<and> list_all (\<lambda>L. prefix (filter (\<lambda>c. c \<in> set L) rest) L) (parent_lins h k))))
   \<and> (k \<notin> set (parents (h k)) \<and> merge_reach (parent_lins h k) [k] lin out
        \<and> \<not> done_c3 lin \<and> \<not> fst (merge lin out)
      \<longrightarrow> \<not> fst (class_linearize h k))"
proof (intro conjI impI)
  assume "fst (class_linearize h k)"
  obtain rest where rest: "linearization (snd (class_linearize h k) k) = k # rest"
    using class_linearize_head by blast
  have "distinct rest \<and> set rest \<subseteq> \<Union>(set ` set (parent_lins h k))
        \<and> list_all (\<lambda>L. prefix (filter (\<lambda>c. c \<in> set L) rest) L) (parent_lins h k)"
    if k: "k \<notin> set (parents (h k))" and d: "list_all distinct (parent_lins h k)"
  proof (cases "parents (h k) = []")
    case True
    with rest show ?thesis by (simp add: class_linearize_eq parent_lins_def)
  next
    case False
    obtain s res where r: "linearize_loop True (parent_lins h k) ([k] @ []) = (s, res)"
      by (cases "linearize_loop True (parent_lins h k) ([k] @ [])")
    from linearize_loop_inv [OF r merge_inv_init [OF d]]
    obtain added lin' where res: "res = [k] @ added"
      and inv: "merge_inv (parent_lins h k) added lin'"
      by blast
    from r res rest k False have "rest = added" by (simp add: class_linearize_parents)
    with inv merge_inv_prefix [OF inv] show ?thesis by (simp add: merge_inv_def)
  qed
  with rest show "\<exists>rest. linearization (snd (class_linearize h k) k) = k # rest
         \<and> (k \<notin> set (parents (h k)) \<and> list_all distinct (parent_lins h k) \<longrightarrow>
              distinct rest \<and> set rest \<subseteq> \<Union>(set ` set (parent_lins h k))
              \<and> list_all (\<lambda>L. prefix (filter (\<lambda>c. c \<in> set L) rest) L) (parent_lins h k))"
    by blast
next
  assume a: "k \<notin> set (parents (h k)) \<and> merge_reach (parent_lins h k) [k] lin out
        \<and> \<not> done_c3 lin \<and> \<not> fst (merge lin out)"
  then have ne: "parents (h k) \<noteq> []"
    by (auto simp: parent_lins_def done_c3_iff dest: merge_reach_Nil)
  from a have "linearize_loop True (parent_lins h k) [k] = (False, out)"
    by (auto intro: merge_reach_stall)
  with a ne show "\<not> fst (class_linearize h k)" by (simp add: class_linearize_parents)
qed

text \<open>
  The theorem at the diamond, where D is linearized with success, and at the class N of
  the third hierarchy, where the third merge step finds the heads E and F each in the
  tail of the other list.
\<close>

theorem class_linearize_merge_witness:
  "fst (class_linearize diamond class_D)
   \<and> class_D \<notin> set (parents (diamond class_D))
   \<and> list_all distinct (parent_lins diamond class_D)
   \<and> (\<exists>rest. linearization (snd (class_linearize diamond class_D) class_D) = class_D # rest
         \<and> distinct rest \<and> set rest \<subseteq> \<Union>(set ` set (parent_lins diamond class_D))
         \<and> list_all (\<lambda>L. prefix (filter (\<lambda>c. c \<in> set L) rest) L)
              (parent_lins diamond class_D))
   \<and> class_N \<notin> set (parents (tangle class_N))
   \<and> merge_reach (parent_lins tangle class_N) [class_N]
        [[class_E, class_F, class_O], [class_F, class_E, class_O]] [class_N, class_G, class_H]
   \<and> \<not> done_c3 [[class_E, class_F, class_O], [class_F, class_E, class_O]]
   \<and> \<not> fst (merge [[class_E, class_F, class_O], [class_F, class_E, class_O]]
              [class_N, class_G, class_H])
   \<and> \<not> fst (class_linearize tangle class_N)"
proof -
  have d: "fst (class_linearize diamond class_D)" by (rule diamond_result)
  have dk: "class_D \<notin> set (parents (diamond class_D))" by (simp add: diamond_facts)
  have dd: "list_all distinct (parent_lins diamond class_D)"
    by (simp add: parent_lins_def diamond_facts)
  have tk: "class_N \<notin> set (parents (tangle class_N))" by (simp add: tangle_facts)
  have tr: "merge_reach (parent_lins tangle class_N) [class_N]
        [[class_E, class_F, class_O], [class_F, class_E, class_O]] [class_N, class_G, class_H]"
    using tangle_reach by (simp add: parent_lins_def tangle_facts)
  from class_linearize_merge [of diamond class_D] d dk dd
  have 1: "\<exists>rest. linearization (snd (class_linearize diamond class_D) class_D) = class_D # rest
         \<and> distinct rest \<and> set rest \<subseteq> \<Union>(set ` set (parent_lins diamond class_D))
         \<and> list_all (\<lambda>L. prefix (filter (\<lambda>c. c \<in> set L) rest) L)
              (parent_lins diamond class_D)"
    by blast
  from class_linearize_merge [of tangle class_N
      "[[class_E, class_F, class_O], [class_F, class_E, class_O]]"
      "[class_N, class_G, class_H]"] tk tr tangle_stall
  have 2: "\<not> fst (class_linearize tangle class_N)" by blast
  from d dk dd 1 tk tr tangle_stall 2 show ?thesis by blast
qed

text \<open>
  Claim C1 as it is stated fails at Z in the hierarchy X; Y with parent X; Z with parents
  X, Y: \<^verbatim>\<open>class_linearize\<close> returns success, and the remainder Y, X of the
  linearization of Z is no valid merge of the inputs the specification names, for it
  does not keep the order of the list of parents X, Y.
\<close>

theorem class_linearize_merge_counterexample:
  "fst (class_linearize xyz class_Z) \<and>
   \<not> spec_valid_merge (spec_merge_inputs xyz class_Z)
        (tl (linearization (snd (class_linearize xyz class_Z) class_Z)))"
  by (simp add: xyz_result spec_valid_merge_def spec_merge_inputs_def parent_lins_def xyz_facts)

text \<open>
  Claim C2, as the code has it. In the hierarchy X; Y with parent X; Z with parents X, Y,
  with X and Y linearized before Z, \<^verbatim>\<open>class_linearize\<close> returns success on Z and leaves
  the linearization Z, Y, X: the lists merged are the linearizations of X and of Y and
  no other, and Y is a good head of them. With the list of parents as a third list, as
  the specification merges, the merge finds no good head at its first step.
\<close>

theorem class_linearize_xyz:
  "fst (class_linearize xyz class_Z)
   \<and> linearization (snd (class_linearize xyz class_Z) class_Z) = [class_Z, class_Y, class_X]
   \<and> parent_lins xyz class_Z = [[class_X], [class_Y, class_X]]
   \<and> merge (parent_lins xyz class_Z) [class_Z] = (True, [[class_X], [class_X]], [class_Z, class_Y])
   \<and> \<not> fst (merge (spec_merge_inputs xyz class_Z) [class_Z])"
  by (simp add: xyz_result spec_merge_inputs_def parent_lins_def xyz_facts merge_def intail_def)

text \<open>Claim C2 as it is stated fails: the call does not return failure.\<close>

theorem class_linearize_xyz_counterexample:
  "\<not> (fst (class_linearize xyz class_Z) = False)"
  by (simp add: xyz_result)

text \<open>
  Claim C4. In the diamond A; B with parent A; C with parent A; D with parents B, C in
  that order, with every class linearized after its parents, \<^verbatim>\<open>class_linearize\<close> returns
  success on D and leaves the linearization D, B, C, A.
\<close>

theorem class_linearize_diamond:
  "linearization (diamond class_A) = [class_A]
   \<and> linearization (diamond class_B) = [class_B, class_A]
   \<and> linearization (diamond class_C) = [class_C, class_A]
   \<and> fst (class_linearize diamond class_D)
   \<and> linearization (snd (class_linearize diamond class_D) class_D)
       = [class_D, class_B, class_C, class_A]"
proof -
  have "linearization (diamond class_A) = [class_A]"
    by (simp add: diamond_def diamond_parents_def hierarchy_simps)
  with diamond_facts diamond_result show ?thesis by simp
qed

subsection \<open>The random engine\<close>

paragraph \<open>The jump functions of xoshiro256+\<close>

lemma xor4_self: "xor4 p p = zero4"
  by (simp add: xor4_def zero4_def)

lemma xor4_cancel: "xor4 (xor4 a p) p = a"
  by (simp add: xor4_def xor.assoc)

lemma xor4_zero: "xor4 zero4 p = p"
  by (simp add: xor4_def zero4_def)

lemma draws_pp_add: "draws_pp (m + n) r = draws_pp n (draws_pp m r)"
  by (induction m arbitrary: r) simp_all

text \<open>A draw of xoshiro256++ leaves the words of xoshiro256+ as they are.\<close>

lemma next_pp_frame: "xoshiro256p_state (snd (next_pp r)) = xoshiro256p_state r"
  by (simp add: next_pp_def Let_def)

lemma draws_pp_frame: "xoshiro256p_state (draws_pp n r) = xoshiro256p_state r"
  by (induction n arbitrary: r) (simp_all add: next_pp_frame)

lemma jump_bit_eq:
  "xoshiro256p_jump_bit w b (acc, r) =
     ((if w AND push_bit b 1 \<noteq> 0 then xor4 acc (xoshiro256p_state r) else acc),
      snd (next_pp r))"
  by (simp add: xoshiro256p_jump_bit_def xor4_def)

text \<open>
  The inner loop over a list of bits: the words the loop adds to the accumulator are the
  same at every turn, so only the parity of the number of branches taken is left.
\<close>

lemma jump_bit_fold:
  "fold (xoshiro256p_jump_bit w) bs (acc, r) =
     ((if even (length (filter (\<lambda>b. w AND push_bit b 1 \<noteq> 0) bs)) then acc
       else xor4 acc (xoshiro256p_state r)),
      draws_pp (length bs) r)"
proof (induction bs arbitrary: acc r)
  case Nil
  show ?case by simp
next
  case (Cons b bs)
  show ?case
    by (simp add: jump_bit_eq Cons.IH next_pp_frame xor4_cancel)
qed

lemma jump_word:
  "fold (xoshiro256p_jump_bit w) [0..<64] (acc, r) =
     ((if even (flips w) then acc else xor4 acc (xoshiro256p_state r)), draws_pp 64 r)"
  by (simp add: jump_bit_fold flips_def)

lemma upt_numeral_snoc: "[0..<numeral k] = [0..<pred_numeral k] @ [pred_numeral k]"
  by (simp add: numeral_eq_Suc)

lemma bit_test: "(w AND push_bit b 1 \<noteq> 0) = bit w b" for w :: u64
  by (simp add: bit_iff_and_push_bit_not_eq_0)

text \<open>The words of \<^verbatim>\<open>JUMP\<close> have 32, 30, 29 and 31 bits set, those of \<^verbatim>\<open>LONG_JUMP\<close> 45, 26, 27 and 30.\<close>

lemma flips_JUMP:
  "flips 0x180ec6d33cfd0aba = 32" "flips 0xd5a61266f0c9392c = 30"
  "flips 0xa9582618e03fc9aa = 29" "flips 0x39abdc4529b1661c = 31"
  by (simp_all add: flips_def upt_numeral_snoc bit_test)

lemma flips_LONG_JUMP:
  "flips 0x76e15d3efefdcbbf = 45" "flips 0xc5004e441c522fb3 = 26"
  "flips 0x77710069854ee241 = 27" "flips 0x39109bb02acbe635 = 30"
  by (simp_all add: flips_def upt_numeral_snoc bit_test)

lemma draws_pp_256: "draws_pp 64 (draws_pp 64 (draws_pp 64 (draws_pp 64 r))) = draws_pp 256 r"
proof -
  have "draws_pp (64 + 64 + 64 + 64) r = draws_pp 64 (draws_pp 64 (draws_pp 64 (draws_pp 64 r)))"
    by (simp only: draws_pp_add)
  then show ?thesis by simp
qed

lemma xoshiro256p_jump_eq:
  "xoshiro256p_jump r = (draws_pp 256 r)\<lparr>xoshiro256p_state := zero4\<rparr>"
  by (simp add: xoshiro256p_jump_def xoshiro256p_jump_with_def JUMP_def jump_word flips_JUMP
      draws_pp_frame xor4_cancel xor4_self draws_pp_256 zero4_def [symmetric] xor4_zero)

lemma xoshiro256p_longjump_eq:
  "xoshiro256p_longjump r = (draws_pp 256 r)\<lparr>xoshiro256p_state := zero4\<rparr>"
  by (simp add: xoshiro256p_longjump_def xoshiro256p_jump_with_def LONG_JUMP_def jump_word
      flips_LONG_JUMP draws_pp_frame xor4_cancel xor4_self draws_pp_256 zero4_def [symmetric]
      xor4_zero)

text \<open>A draw of xoshiro256+ reaches the state of four zero words from that state only.\<close>

lemma rotl45_zero:
  fixes x :: u64
  assumes "xoshiro256p_rotl x 45 = 0"
  shows "x = 0"
proof (rule bit_eqI)
  fix n
  from assms have a: "push_bit 45 x = 0" and b: "drop_bit 19 x = 0"
    by (simp_all add: xoshiro256p_rotl_def or_eq_0_iff)
  show "bit x n = bit (0 :: u64) n"
  proof (cases "n < 19")
    case True
    have "bit (push_bit 45 x) (n + 45) = bit x n"
      using True by (simp add: bit_push_bit_iff)
    with a show ?thesis by simp
  next
    case False
    have "bit (drop_bit 19 x) (n - 19) = bit x n"
      using False by (simp add: bit_drop_bit_eq)
    with b show ?thesis by simp
  qed
qed

lemma push17_fixed:
  fixes x :: u64
  assumes "x = push_bit 17 x"
  shows "x = 0"
proof (rule bit_eqI)
  fix n
  have "\<not> bit x n"
  proof (induction n rule: less_induct)
    case (less n)
    have "bit x n = bit (push_bit 17 x) n" using assms by simp
    also have "\<dots> = (17 \<le> n \<and> n < 64 \<and> bit x (n - 17))"
      by (auto simp: bit_push_bit_iff dest: bit_imp_le_length)
    finally show ?case using less [of "n - 17"] by auto
  qed
  then show "bit x n = bit (0 :: u64) n" by simp
qed

lemma xor_eq_0: "a XOR b = 0 \<longleftrightarrow> a = b" for a b :: u64
  by (metis bit.xor_self xor.assoc xor.right_neutral)

lemma xoshiro256p_next_zero:
  assumes "xoshiro256p_state (snd (xoshiro256p_next r)) = zero4"
  shows "xoshiro256p_state r = zero4"
proof -
  let ?s = "xoshiro256p_state r"
  let ?t = "xoshiro256p_state (snd (xoshiro256p_next r))"
  from assms have "w0 ?t = 0" "w1 ?t = 0" "w2 ?t = 0" "w3 ?t = 0"
    by (simp_all add: zero4_def)
  then have e0: "w0 ?s XOR (w3 ?s XOR w1 ?s) = 0"
    and e1: "w1 ?s XOR (w2 ?s XOR w0 ?s) = 0"
    and e2: "(w2 ?s XOR w0 ?s) XOR push_bit 17 (w1 ?s) = 0"
    and e3: "xoshiro256p_rotl (w3 ?s XOR w1 ?s) 45 = 0"
    by (simp_all add: xoshiro256p_next_def Let_def)
  from e3 have "w3 ?s XOR w1 ?s = 0" by (rule rotl45_zero)
  then have a: "w3 ?s = w1 ?s" by (simp add: xor_eq_0)
  with e0 have b: "w0 ?s = 0" by simp
  with e1 have c: "w1 ?s = w2 ?s" by (simp add: xor_eq_0)
  with e2 b have "w1 ?s = push_bit 17 (w1 ?s)" by (simp add: xor_eq_0)
  then have d: "w1 ?s = 0" by (rule push17_fixed)
  from a b c d show ?thesis by (simp add: zero4_def)
qed

lemma draws_p_nonzero:
  "xoshiro256p_state r \<noteq> zero4 \<Longrightarrow> xoshiro256p_state (draws_p n r) \<noteq> zero4"
proof (induction n arbitrary: r)
  case 0
  then show ?case by simp
next
  case (Suc n)
  from Suc.prems have "xoshiro256p_state (snd (xoshiro256p_next r)) \<noteq> zero4"
    using xoshiro256p_next_zero by blast
  then show ?case by (simp add: Suc.IH)
qed

text \<open>
  The 256 draws of xoshiro256++ from the words 1, 2, 3, 4, evaluated 64 draws at a time.
  A left shift of a numeral is reduced to 64 bits as it is computed.
\<close>

lemma draws_pp_numeral:
  "draws_pp (numeral k) r = draws_pp (pred_numeral k) (snd (next_pp r))"
  by (simp add: numeral_eq_Suc)

lemma push_bit_norm:
  "push_bit n (numeral k :: u64) = word_of_int (take_bit 64 (push_bit n (numeral k :: int)))"
proof -
  have "(word_of_int (take_bit 64 (push_bit n (numeral k :: int))) :: u64)
      = word_of_int (push_bit n (numeral k :: int))"
    by (simp add: word_of_int_eq_iff)
  also have "\<dots> = push_bit n (word_of_int (numeral k))"
    by (simp add: push_bit_eq_mult)
  finally show ?thesis by simp
qed

lemma next_pp_words:
  "snd (next_pp (r\<lparr>xoshiro256pp_state := \<lparr>w0 = a, w1 = b, w2 = c, w3 = d\<rparr>\<rparr>)) =
     r\<lparr>xoshiro256pp_state :=
        \<lparr>w0 = a XOR (d XOR b), w1 = b XOR (c XOR a), w2 = (c XOR a) XOR push_bit 17 b,
         w3 = push_bit 45 (d XOR b) OR drop_bit 19 (d XOR b)\<rparr>\<rparr>"
  by (simp add: next_pp_def Let_def xoshiro256pp_rotl_def)

lemma draws_pp_first_64:
  "draws_pp 64
     (r\<lparr>xoshiro256pp_state :=
        \<lparr>w0 = 1, w1 = 2,
         w2 = 3, w3 = 4\<rparr>\<rparr>) =
   r\<lparr>xoshiro256pp_state :=
      \<lparr>w0 = 14581127199213258956, w1 = 1149242190933862643,
       w2 = 14563980031611881693, w3 = 11998048167481374858\<rparr>\<rparr>"
  by (simp add: draws_pp_numeral next_pp_words push_bit_norm)

lemma draws_pp_second_64:
  "draws_pp 64
     (r\<lparr>xoshiro256pp_state :=
        \<lparr>w0 = 14581127199213258956, w1 = 1149242190933862643,
         w2 = 14563980031611881693, w3 = 11998048167481374858\<rparr>\<rparr>) =
   r\<lparr>xoshiro256pp_state :=
      \<lparr>w0 = 17481452305964555327, w1 = 4780665962360194766,
       w2 = 16554946482600334866, w3 = 15896919687001888804\<rparr>\<rparr>"
  by (simp add: draws_pp_numeral next_pp_words push_bit_norm)

lemma draws_pp_third_64:
  "draws_pp 64
     (r\<lparr>xoshiro256pp_state :=
        \<lparr>w0 = 17481452305964555327, w1 = 4780665962360194766,
         w2 = 16554946482600334866, w3 = 15896919687001888804\<rparr>\<rparr>) =
   r\<lparr>xoshiro256pp_state :=
      \<lparr>w0 = 7081056363068868078, w1 = 10821266780215102631,
       w2 = 1038318142230684473, w3 = 7503908890522158116\<rparr>\<rparr>"
  by (simp add: draws_pp_numeral next_pp_words push_bit_norm)

lemma draws_pp_fourth_64:
  "draws_pp 64
     (r\<lparr>xoshiro256pp_state :=
        \<lparr>w0 = 7081056363068868078, w1 = 10821266780215102631,
         w2 = 1038318142230684473, w3 = 7503908890522158116\<rparr>\<rparr>) =
   r\<lparr>xoshiro256pp_state :=
      \<lparr>w0 = 8234345546515367945, w1 = 11318505498045031953,
       w2 = 1599109029821590652, w3 = 10917834480555527884\<rparr>\<rparr>"
  by (simp add: draws_pp_numeral next_pp_words push_bit_norm)

lemma draws_pp_256_rng_1234:
  "xoshiro256pp_state (draws_pp 256 rng_1234) =
     \<lparr>w0 = 8234345546515367945, w1 = 11318505498045031953,
      w2 = 1599109029821590652, w3 = 10917834480555527884\<rparr>"
proof -
  have "rng_1234 = rng_1234\<lparr>xoshiro256pp_state := \<lparr>w0 = 1, w1 = 2, w2 = 3, w3 = 4\<rparr>\<rparr>"
    by (simp add: rng_1234_def)
  then have "draws_pp 256 rng_1234 =
      draws_pp 64 (draws_pp 64 (draws_pp 64 (draws_pp 64
        (rng_1234\<lparr>xoshiro256pp_state := \<lparr>w0 = 1, w1 = 2, w2 = 3, w3 = 4\<rparr>\<rparr>))))"
    by (simp only: draws_pp_256)
  then show ?thesis
    by (simp only: draws_pp_first_64 draws_pp_second_64 draws_pp_third_64 draws_pp_fourth_64)
       simp
qed

text \<open>
  Claim C3 fails on the code. Both \<^verbatim>\<open>xoshiro256p_jump\<close> and \<^verbatim>\<open>xoshiro256p_longjump\<close> call
  \<^verbatim>\<open>next\<close>, the draw of xoshiro256++, in their loop. So for every state: the words of
  xoshiro256+ are left all zero (each table has an even number of bits set, and the same
  words are added at every one of them); xoshiro256++, the other generator, is advanced
  by 256 draws; and when the words of xoshiro256+ were not all zero, the state it is
  left in is the state after n draws of \<^verbatim>\<open>xoshiro256p_next\<close> for no n, in particular not
  for \<open>2 ^ 128\<close> or \<open>2 ^ 192\<close>.
\<close>

theorem xoshiro256p_jump_zeroes:
  "xoshiro256p_state (xoshiro256p_jump r) = zero4
   \<and> xoshiro256p_state (xoshiro256p_longjump r) = zero4
   \<and> xoshiro256pp_state (xoshiro256p_jump r) = xoshiro256pp_state (draws_pp 256 r)
   \<and> xoshiro256pp_state (xoshiro256p_longjump r) = xoshiro256pp_state (draws_pp 256 r)
   \<and> (xoshiro256p_state r \<noteq> zero4 \<longrightarrow>
        xoshiro256p_state (xoshiro256p_jump r) \<noteq> xoshiro256p_state (draws_p n r)
        \<and> xoshiro256p_state (xoshiro256p_longjump r) \<noteq> xoshiro256p_state (draws_p n r))"
proof (intro conjI impI)
  assume "xoshiro256p_state r \<noteq> zero4"
  then have nz: "xoshiro256p_state (draws_p n r) \<noteq> zero4" by (rule draws_p_nonzero)
  then show "xoshiro256p_state (xoshiro256p_jump r) \<noteq> xoshiro256p_state (draws_p n r)"
    by (simp add: xoshiro256p_jump_eq)
  from nz show "xoshiro256p_state (xoshiro256p_longjump r) \<noteq> xoshiro256p_state (draws_p n r)"
    by (simp add: xoshiro256p_longjump_eq)
qed (simp_all add: xoshiro256p_jump_eq xoshiro256p_longjump_eq)

text \<open>
  The theorem at the state whose words are 1, 2, 3, 4, for \<open>2 ^ 128\<close> draws and the
  jump, and for \<open>2 ^ 192\<close> draws and the long jump. There the 256 draws do change the
  words of xoshiro256++.
\<close>

theorem xoshiro256p_jump_zeroes_witness:
  "xoshiro256p_state rng_1234 \<noteq> zero4
   \<and> xoshiro256p_state (xoshiro256p_jump rng_1234) = zero4
   \<and> xoshiro256p_state (xoshiro256p_longjump rng_1234) = zero4
   \<and> xoshiro256pp_state (xoshiro256p_jump rng_1234) \<noteq> xoshiro256pp_state rng_1234
   \<and> xoshiro256pp_state (xoshiro256p_longjump rng_1234) \<noteq> xoshiro256pp_state rng_1234
   \<and> xoshiro256p_state (xoshiro256p_jump rng_1234)
       \<noteq> xoshiro256p_state (draws_p (2 ^ 128) rng_1234)
   \<and> xoshiro256p_state (xoshiro256p_longjump rng_1234)
       \<noteq> xoshiro256p_state (draws_p (2 ^ 192) rng_1234)"
proof -
  have nz: "xoshiro256p_state rng_1234 \<noteq> zero4" by (simp add: rng_1234_def zero4_def)
  have ch: "xoshiro256pp_state (draws_pp 256 rng_1234) \<noteq> xoshiro256pp_state rng_1234"
    by (simp only: draws_pp_256_rng_1234) (simp add: rng_1234_def)
  from nz ch xoshiro256p_jump_zeroes [of rng_1234 "2 ^ 128"]
    xoshiro256p_jump_zeroes [of rng_1234 "2 ^ 192"]
  show ?thesis by metis
qed

paragraph \<open>Doubles and integers from a draw\<close>

lemma unat_shiftr: "unat (drop_bit n x) = unat x div 2 ^ n" for x :: u64
  by (subst unat_drop_bit_eq) (rule drop_bit_eq_div)

lemma unat_u64_less: "unat (x :: u64) < 2 ^ 64"
  using unsigned_less [of x] by simp

lemma top53: "unat (x :: u64) div 2 ^ 11 < 2 ^ 53"
  using unat_u64_less [of x] by (simp add: less_mult_imp_div_less)

lemma top32: "unat (x :: u64) div 2 ^ 32 < 2 ^ 32"
  using unat_u64_less [of x] by (simp add: less_mult_imp_div_less)

lemma random_double_value:
  "fst (random_double r) = real (unat (fst (xoshiro256p_next r)) div 2 ^ 11) / 2 ^ 53"
proof -
  have "unat (drop_bit 11 (fst (xoshiro256p_next r))) = unat (fst (xoshiro256p_next r)) div 2 ^ 11"
    by (rule unat_shiftr)
  then show ?thesis
    by (simp only: random_double_def split_def Let_def fst_conv) simp
qed

lemma random_double_range: "0 \<le> fst (random_double r) \<and> fst (random_double r) < 1"
proof -
  have "real (unat (fst (xoshiro256p_next r)) div 2 ^ 11) < 2 ^ 53"
    using top53 [of "fst (xoshiro256p_next r)"]
    by (metis of_nat_less_iff of_nat_numeral of_nat_power)
  then show ?thesis by (simp add: random_double_value)
qed

lemma random_int_value:
  "unat (fst (random_int r)) = unat (fst (xoshiro256p_next r)) div 2 ^ 32"
proof -
  have "unat (ucast (drop_bit 32 (fst (xoshiro256p_next r))) :: 32 word)
      = take_bit 32 (unat (fst (xoshiro256p_next r)) div 2 ^ 32)"
    by (simp only: unsigned_ucast_eq unat_shiftr) simp
  with top32 [of "fst (xoshiro256p_next r)"] show ?thesis
    by (simp only: random_int_def split_def Let_def fst_conv) (simp add: take_bit_nat_eq_self)
qed

text \<open>
  Claim C7. With x the 64-bit value \<^verbatim>\<open>xoshiro256p_next\<close> draws, which is the sum of the
  first and the last word of the state, \<^verbatim>\<open>random_double\<close> returns x shifted right by 11
  bits, the top 53 bits of the draw, times \<open>2\<close> to the power -53, a number from 0 up to
  but not including 1; \<^verbatim>\<open>random_int\<close> returns the upper 32 bits of the draw, x shifted
  right by 32 bits, as an unsigned integer of 32 bits; and both leave the state the draw
  leaves.
\<close>

theorem random_double_int:
  "fst (xoshiro256p_next r) = w0 (xoshiro256p_state r) + w3 (xoshiro256p_state r)
   \<and> fst (random_double r) = real (unat (drop_bit 11 (fst (xoshiro256p_next r)))) / 2 ^ 53
   \<and> unat (drop_bit 11 (fst (xoshiro256p_next r))) = unat (fst (xoshiro256p_next r)) div 2 ^ 11
   \<and> unat (drop_bit 11 (fst (xoshiro256p_next r))) < 2 ^ 53
   \<and> 0 \<le> fst (random_double r) \<and> fst (random_double r) < 1
   \<and> snd (random_double r) = snd (xoshiro256p_next r)
   \<and> unat (fst (random_int r)) = unat (drop_bit 32 (fst (xoshiro256p_next r)))
   \<and> unat (fst (random_int r)) = unat (fst (xoshiro256p_next r)) div 2 ^ 32
   \<and> snd (random_int r) = snd (xoshiro256p_next r)"
proof (intro conjI)
  show "fst (xoshiro256p_next r) = w0 (xoshiro256p_state r) + w3 (xoshiro256p_state r)"
    by (simp add: xoshiro256p_next_def Let_def)
  show "fst (random_double r) = real (unat (drop_bit 11 (fst (xoshiro256p_next r)))) / 2 ^ 53"
    by (simp only: unat_shiftr random_double_value)
  show "unat (drop_bit 11 (fst (xoshiro256p_next r))) = unat (fst (xoshiro256p_next r)) div 2 ^ 11"
    by (rule unat_shiftr)
  show "unat (drop_bit 11 (fst (xoshiro256p_next r))) < 2 ^ 53"
    by (simp only: unat_shiftr top53)
  show "0 \<le> fst (random_double r)" "fst (random_double r) < 1"
    using random_double_range by blast+
  show "snd (random_double r) = snd (xoshiro256p_next r)"
    by (simp add: random_double_def split_def Let_def)
  show "unat (fst (random_int r)) = unat (drop_bit 32 (fst (xoshiro256p_next r)))"
    by (simp only: unat_shiftr random_int_value)
  show "unat (fst (random_int r)) = unat (fst (xoshiro256p_next r)) div 2 ^ 32"
    by (rule random_int_value)
  show "snd (random_int r) = snd (xoshiro256p_next r)"
    by (simp add: random_int_def split_def Let_def)
qed

paragraph \<open>Seeding\<close>

lemma read_bytes:
  "n \<le> length bytes \<Longrightarrow> n \<le> length stream \<Longrightarrow>
   fold read_byte [0..<n] (bytes, stream) = (take n stream @ drop n bytes, drop n stream)"
proof (induction n)
  case 0
  show ?case by simp
next
  case (Suc n)
  from Suc.prems obtain c rest where d: "drop n stream = c # rest"
    by (cases "drop n stream") auto
  then have c: "c = stream ! n" and rest: "rest = drop (Suc n) stream"
    using Suc.prems by (metis Cons_nth_drop_Suc Suc_le_lessD list.inject)+
  from Suc.prems have e: "drop n bytes = bytes ! n # drop (Suc n) bytes"
    by (simp add: Cons_nth_drop_Suc Suc_le_lessD)
  from Suc.prems
  have "(take n stream @ drop n bytes)[n := c] = take n stream @ c # drop (Suc n) bytes"
    by (simp add: e list_update_append)
  with Suc d c rest show ?case
    by (simp add: read_byte_def take_Suc_conv_app_nth Suc_le_lessD)
qed

lemma splitmix64_next_eq:
  "splitmix64_next r =
     (mix64 (splitmix64_state r + 0x9E3779B97F4A7C15),
      r\<lparr>splitmix64_state := splitmix64_state r + 0x9E3779B97F4A7C15\<rparr>)"
  by (simp add: splitmix64_next_def mix64_def Let_def)

lemma splitmix64_output_eq:
  "splitmix64_output k r = mix64 (splitmix64_state r + of_nat (Suc k) * 0x9E3779B97F4A7C15)"
  by (induction k arbitrary: r) (simp_all add: splitmix64_next_eq algebra_simps)

lemma splitmix64_expand_run:
  "(let r = splitmix64_seed seed r;
        (z, r) = splitmix64_next r;
        r = r\<lparr>xoshiro256pp_state := (xoshiro256pp_state r)\<lparr>w0 := z\<rparr>\<rparr>;
        (z, r) = splitmix64_next r;
        r = r\<lparr>xoshiro256pp_state := (xoshiro256pp_state r)\<lparr>w1 := z\<rparr>\<rparr>;
        (z, r) = splitmix64_next r;
        r = r\<lparr>xoshiro256pp_state := (xoshiro256pp_state r)\<lparr>w2 := z\<rparr>\<rparr>;
        (z, r) = splitmix64_next r;
        r = r\<lparr>xoshiro256pp_state := (xoshiro256pp_state r)\<lparr>w3 := z\<rparr>\<rparr>;
        (z, r) = splitmix64_next r;
        r = r\<lparr>xoshiro256p_state := (xoshiro256p_state r)\<lparr>w0 := z\<rparr>\<rparr>;
        (z, r) = splitmix64_next r;
        r = r\<lparr>xoshiro256p_state := (xoshiro256p_state r)\<lparr>w1 := z\<rparr>\<rparr>;
        (z, r) = splitmix64_next r;
        r = r\<lparr>xoshiro256p_state := (xoshiro256p_state r)\<lparr>w2 := z\<rparr>\<rparr>;
        (z, r) = splitmix64_next r;
        r = r\<lparr>xoshiro256p_state := (xoshiro256p_state r)\<lparr>w3 := z\<rparr>\<rparr>
    in (r, e, l)) = (splitmix64_expand seed r, e, l)"
proof -
  have "splitmix64_expand seed r =
     r\<lparr>splitmix64_state := seed + 8 * 0x9E3779B97F4A7C15,
       xoshiro256pp_state :=
         \<lparr>w0 = mix64 (seed + 1 * 0x9E3779B97F4A7C15), w1 = mix64 (seed + 2 * 0x9E3779B97F4A7C15),
          w2 = mix64 (seed + 3 * 0x9E3779B97F4A7C15), w3 = mix64 (seed + 4 * 0x9E3779B97F4A7C15)\<rparr>,
       xoshiro256p_state :=
         \<lparr>w0 = mix64 (seed + 5 * 0x9E3779B97F4A7C15), w1 = mix64 (seed + 6 * 0x9E3779B97F4A7C15),
          w2 = mix64 (seed + 7 * 0x9E3779B97F4A7C15), w3 = mix64 (seed + 8 * 0x9E3779B97F4A7C15)\<rparr>\<rparr>"
    by (intro random_state.equality)
       (simp_all add: splitmix64_expand_def splitmix64_output_eq splitmix64_seed_def)
  then show ?thesis
    by (simp add: splitmix64_seed_def splitmix64_next_eq Let_def add.commute)
qed

lemma random_initialize_eq:
  assumes "sizeof_unsigned_long env \<le> length (bytes_before env)"
    and "\<And>stream. urandom env = Some stream \<Longrightarrow> sizeof_unsigned_long env \<le> length stream"
  shows "random_initialize env r =
     (splitmix64_expand (random_seed env) r,
      (if urandom env = None then [urandom_warning] else []),
      map_option (drop (sizeof_unsigned_long env)) (urandom env))"
proof (cases "urandom env")
  case None
  then show ?thesis
    unfolding random_initialize_def
    by (simp only: splitmix64_expand_run) (simp add: random_seed_def)
next
  case (Some stream)
  with assms have "fold read_byte [0..<sizeof_unsigned_long env] (bytes_before env, stream)
      = (take (sizeof_unsigned_long env) stream @ drop (sizeof_unsigned_long env) (bytes_before env),
         drop (sizeof_unsigned_long env) stream)"
    by (intro read_bytes) auto
  with Some show ?thesis
    unfolding random_initialize_def
    by (simp only: splitmix64_expand_run) (simp add: random_seed_def)
qed

text \<open>
  Claim C6, as the code has it. When \<^verbatim>\<open>/dev/urandom\<close> can be opened,
  \<^verbatim>\<open>random_initialize\<close> reads \<^verbatim>\<open>sizeof(unsigned long)\<close> bytes from it, which are 8 bytes
  on an LP64 platform and not 32, and takes the 64-bit word they form as the seed, with
  no warning; otherwise the seed is the clock in seconds and one warning is written. In
  either case the seed is given to splitmix64, whose outputs 0 to 3 fill the four words
  of xoshiro256++ and whose outputs 4 to 7 fill the four words of xoshiro256+; output k
  is the mix of the seed plus k + 1 times the increment of splitmix64.
\<close>

theorem random_initialize_seeding:
  assumes "sizeof_unsigned_long env \<le> length (bytes_before env)"
    and "\<forall>stream. urandom env = Some stream \<longrightarrow> sizeof_unsigned_long env \<le> length stream"
  shows "random_initialize env r =
           (splitmix64_expand (random_seed env) r,
            (if urandom env = None then [urandom_warning] else []),
            map_option (drop (sizeof_unsigned_long env)) (urandom env))
     \<and> (urandom env = None \<longrightarrow> random_seed env = time_now env)
     \<and> (\<forall>stream. urandom env = Some stream \<and> sizeof_unsigned_long env = 8
            \<and> length (bytes_before env) = 8 \<longrightarrow>
          random_seed env = u64_of_bytes (big_endian env) (take 8 stream))
     \<and> splitmix64_output k (splitmix64_seed (random_seed env) r)
         = mix64 (random_seed env + of_nat (Suc k) * 0x9E3779B97F4A7C15)"
proof (intro conjI allI impI)
  show "random_initialize env r =
           (splitmix64_expand (random_seed env) r,
            (if urandom env = None then [urandom_warning] else []),
            map_option (drop (sizeof_unsigned_long env)) (urandom env))"
    using assms by (intro random_initialize_eq) auto
next
  assume "urandom env = None"
  then show "random_seed env = time_now env" by (simp add: random_seed_def)
next
  fix stream
  assume "urandom env = Some stream \<and> sizeof_unsigned_long env = 8
            \<and> length (bytes_before env) = 8"
  then show "random_seed env = u64_of_bytes (big_endian env) (take 8 stream)"
    by (simp add: random_seed_def)
next
  show "splitmix64_output k (splitmix64_seed (random_seed env) r)
         = mix64 (random_seed env + of_nat (Suc k) * 0x9E3779B97F4A7C15)"
    by (simp only: splitmix64_output_eq) (simp add: splitmix64_seed_def)
qed

text \<open>
  The theorem on an LP64 platform whose device delivers 32 bytes, and on the same
  platform without the device.
\<close>

theorem random_initialize_seeding_witness:
  "sizeof_unsigned_long (lp64_env (replicate 32 0xAA))
      \<le> length (bytes_before (lp64_env (replicate 32 0xAA)))
   \<and> urandom (lp64_env (replicate 32 0xAA)) = Some (replicate 32 0xAA)
   \<and> sizeof_unsigned_long (lp64_env (replicate 32 0xAA)) \<le> length (replicate 32 (0xAA :: 8 word))
   \<and> random_initialize (lp64_env (replicate 32 0xAA)) rng_1234 =
        (splitmix64_expand (u64_of_bytes False (replicate 8 0xAA)) rng_1234, [],
         Some (replicate 24 0xAA))
   \<and> urandom no_urandom_env = None
   \<and> random_initialize no_urandom_env rng_1234 =
        (splitmix64_expand 1700000000 rng_1234, [urandom_warning], None)"
proof -
  have a: "sizeof_unsigned_long (lp64_env (replicate 32 0xAA))
      \<le> length (bytes_before (lp64_env (replicate 32 0xAA)))"
    by (simp add: lp64_env_def)
  have b: "\<forall>stream. urandom (lp64_env (replicate 32 0xAA)) = Some stream \<longrightarrow>
      sizeof_unsigned_long (lp64_env (replicate 32 0xAA)) \<le> length stream"
    by (simp add: lp64_env_def)
  have c: "sizeof_unsigned_long no_urandom_env \<le> length (bytes_before no_urandom_env)"
    by (simp add: no_urandom_env_def)
  have d: "\<forall>stream. urandom no_urandom_env = Some stream \<longrightarrow>
      sizeof_unsigned_long no_urandom_env \<le> length stream"
    by (simp add: no_urandom_env_def)
  from random_initialize_seeding [OF a b, of rng_1234 0]
  have 1: "random_initialize (lp64_env (replicate 32 0xAA)) rng_1234 =
        (splitmix64_expand (u64_of_bytes False (replicate 8 0xAA)) rng_1234, [],
         Some (replicate 24 0xAA))"
    by (simp add: lp64_env_def random_seed_def)
  from random_initialize_seeding [OF c d, of rng_1234 0]
  have 2: "random_initialize no_urandom_env rng_1234 =
        (splitmix64_expand 1700000000 rng_1234, [urandom_warning], None)"
    by (simp add: no_urandom_env_def random_seed_def)
  from 1 2 show ?thesis by (simp add: lp64_env_def no_urandom_env_def)
qed

text \<open>
  Claim C6 as it is stated fails: of 32 bytes the device holds, the call reads 8 and
  leaves 24, and the state it sets up is the same for two devices whose bytes differ
  from the ninth on.
\<close>

theorem random_initialize_seeding_counterexample:
  "snd (snd (random_initialize (lp64_env (replicate 32 0xAA)) rng_1234))
     = Some (replicate 24 0xAA)
   \<and> replicate 32 (0xAA :: 8 word) \<noteq> replicate 8 0xAA @ replicate 24 0x55
   \<and> fst (random_initialize (lp64_env (replicate 32 0xAA)) rng_1234)
     = fst (random_initialize (lp64_env (replicate 8 0xAA @ replicate 24 0x55)) rng_1234)"
proof -
  have a: "random_initialize (lp64_env (replicate 32 0xAA)) rng_1234 =
        (splitmix64_expand (u64_of_bytes False (replicate 8 0xAA)) rng_1234, [],
         Some (replicate 24 0xAA))"
    by (subst random_initialize_eq) (simp_all add: lp64_env_def random_seed_def)
  have b: "random_initialize (lp64_env (replicate 8 0xAA @ replicate 24 0x55)) rng_1234 =
        (splitmix64_expand (u64_of_bytes False (replicate 8 0xAA)) rng_1234, [],
         Some (replicate 24 0x55))"
    by (subst random_initialize_eq) (simp_all add: lp64_env_def random_seed_def)
  have c: "replicate 32 (0xAA :: 8 word) ! 8 \<noteq> (replicate 8 0xAA @ replicate 24 0x55) ! 8"
    by (simp add: nth_append)
  then have "replicate 32 (0xAA :: 8 word) \<noteq> replicate 8 0xAA @ replicate 24 0x55"
    by metis
  with a b show ?thesis by simp
qed

subsection \<open>Discretizations\<close>

text \<open>Inside the range of \<^verbatim>\<open>int\<close> nothing wraps.\<close>

lemma int_wrap_id: "INT_MIN \<le> x \<Longrightarrow> x \<le> INT_MAX \<Longrightarrow> int_wrap x = x"
  by (simp add: int_wrap_def INT_MIN_def INT_MAX_def)

lemma decimal_digit: "n < 10 \<Longrightarrow> decimal n = [''0123456789'' ! n]"
  by (simp add: decimal.simps)

lemma copy_two: "fold (\<lambda>i b. b[i := [x, y] ! i]) [0..<2] (replicate 2 z) = [x, y]"
proof -
  have "[0..<2] = [0, 1 :: nat]" by (simp add: upt_rec)
  moreover have "replicate 2 z = [z, z]" by (simp add: numeral_2_eq_2)
  ultimately show ?thesis by simp
qed

text \<open>The constructor when both allocations succeed.\<close>

lemma lagrange_constructor_allocated:
  assumes "object_new hst = Some a" and "morpho_malloc hst"
  shows "lagrange_constructor hst rt args =
     Result (MORPHO_OBJECT a,
       rt\<lparr>heap := (heap rt)(a \<mapsto>
              \<lparr>label = LAGRANGE_CONSTRUCTORNAME,
               order = (if length args = 1
                        then (case morpho_valuetoint hst (args ! 0) of
                                Some n \<Rightarrow> n | None \<Rightarrow> 1)
                        else 1),
               g = MESH_GRADE_LINE,
               shape = Some [1, int_wrap ((if length args = 1
                        then (case morpho_valuetoint hst (args ! 0) of
                                Some n \<Rightarrow> n | None \<Rightarrow> 1)
                        else 1) - 1)]\<rparr>),
          bound := MORPHO_OBJECT a # bound rt\<rparr>)"
  using assms
  by (simp add: lagrange_constructor_def object_newdiscretization_def discretization_init_def
      MESH_GRADE_LINE_def morpho_bindobjects_def Let_def copy_two)

lemma lagrange_constructor_err:
  "lagrange_constructor hst rt args = Result (v, rt') \<Longrightarrow> err rt' = err rt"
  by (auto simp: lagrange_constructor_def object_newdiscretization_def discretization_init_def
      morpho_bindobjects_def Let_def split: option.splits if_splits outcome.splits prod.splits)

text \<open>
  Claim C5. On a host where \<^verbatim>\<open>morpho_valuetoint\<close> converts the integer value 3 to 3 and
  the two allocations succeed, the Lagrange constructor called with the single argument
  3 returns a discretization object whose order is 3, whose grade is the grade of a
  line and whose shape is 1, 2; printing it with the print function of its type entry
  gives \<^verbatim>\<open><lagrange 3>\<close>; and called with no argument the constructor returns an object
  of order 1.
\<close>

theorem lagrange_constructor_3:
  assumes "morpho_valuetoint hst (MORPHO_INTEGER 3) = Some 3"
    and "object_new hst = Some a" and "morpho_malloc hst"
  shows "\<exists>rt' d rt'' d'.
      lagrange_constructor hst rt [MORPHO_INTEGER 3] = Result (MORPHO_OBJECT a, rt')
      \<and> heap rt' a = Some d \<and> order d = 3 \<and> g d = MESH_GRADE_LINE \<and> shape d = Some [1, 2]
      \<and> printfn objectdiscretizationdefn d = ''<lagrange 3>''
      \<and> lagrange_constructor hst rt [] = Result (MORPHO_OBJECT a, rt'')
      \<and> heap rt'' a = Some d' \<and> order d' = 1"
  using assms
  by (simp add: lagrange_constructor_allocated objectdiscretizationdefn_def int_wrap_def
      objectdiscretization_printfn_def printf_i_def decimal_digit LAGRANGE_CONSTRUCTORNAME_def)

text \<open>The theorem on the host that converts integers and allocates at address 7.\<close>

theorem lagrange_constructor_3_witness:
  "morpho_valuetoint integer_host (MORPHO_INTEGER 3) = Some 3
   \<and> object_new integer_host = Some 7 \<and> morpho_malloc integer_host
   \<and> (\<exists>rt' d rt'' d'.
      lagrange_constructor integer_host empty_runtime [MORPHO_INTEGER 3]
        = Result (MORPHO_OBJECT 7, rt')
      \<and> heap rt' 7 = Some d \<and> order d = 3 \<and> g d = MESH_GRADE_LINE \<and> shape d = Some [1, 2]
      \<and> printfn objectdiscretizationdefn d = ''<lagrange 3>''
      \<and> lagrange_constructor integer_host empty_runtime [] = Result (MORPHO_OBJECT 7, rt'')
      \<and> heap rt'' 7 = Some d' \<and> order d' = 1)"
proof -
  have a: "morpho_valuetoint integer_host (MORPHO_INTEGER 3) = Some 3"
    and b: "object_new integer_host = Some 7" and c: "morpho_malloc integer_host"
    by (simp_all add: integer_host_def)
  from lagrange_constructor_3 [OF a b c, of empty_runtime] a b c show ?thesis by blast
qed

text \<open>
  Claim C10. When \<^verbatim>\<open>lagrange_constructor\<close> is called with exactly one argument that
  \<^verbatim>\<open>morpho_valuetoint\<close> does not convert, the failure is ignored: the call does what the
  call without an argument does, it leaves the error of the virtual machine as it was,
  and when the allocations succeed it returns a discretization of the default order 1.
\<close>

theorem lagrange_constructor_bad_argument:
  assumes "morpho_valuetoint hst v = None"
  shows "lagrange_constructor hst rt [v] = lagrange_constructor hst rt []
     \<and> (\<forall>res rt'. lagrange_constructor hst rt [v] = Result (res, rt') \<longrightarrow> err rt' = err rt)
     \<and> (\<forall>a. object_new hst = Some a \<and> morpho_malloc hst \<longrightarrow>
          (\<exists>rt' d. lagrange_constructor hst rt [v] = Result (MORPHO_OBJECT a, rt')
             \<and> heap rt' a = Some d \<and> order d = 1 \<and> g d = MESH_GRADE_LINE
             \<and> shape d = Some [1, 0]))"
proof (intro conjI allI impI)
  show "lagrange_constructor hst rt [v] = lagrange_constructor hst rt []"
    using assms by (simp add: lagrange_constructor_def)
next
  fix res rt' assume "lagrange_constructor hst rt [v] = Result (res, rt')"
  then show "err rt' = err rt" by (rule lagrange_constructor_err)
next
  fix a assume "object_new hst = Some a \<and> morpho_malloc hst"
  with assms show "\<exists>rt' d. lagrange_constructor hst rt [v] = Result (MORPHO_OBJECT a, rt')
             \<and> heap rt' a = Some d \<and> order d = 1 \<and> g d = MESH_GRADE_LINE
             \<and> shape d = Some [1, 0]"
    by (simp add: lagrange_constructor_allocated int_wrap_def)
qed

text \<open>The theorem for the argument nil, which the host of the witness does not convert.\<close>

theorem lagrange_constructor_bad_argument_witness:
  "morpho_valuetoint integer_host MORPHO_NIL = None
   \<and> object_new integer_host = Some 7 \<and> morpho_malloc integer_host
   \<and> lagrange_constructor integer_host empty_runtime [MORPHO_NIL]
       = lagrange_constructor integer_host empty_runtime []
   \<and> (\<exists>rt' d. lagrange_constructor integer_host empty_runtime [MORPHO_NIL]
                 = Result (MORPHO_OBJECT 7, rt')
        \<and> err rt' = err empty_runtime
        \<and> heap rt' 7 = Some d \<and> order d = 1 \<and> g d = MESH_GRADE_LINE \<and> shape d = Some [1, 0])"
proof -
  have a: "morpho_valuetoint integer_host MORPHO_NIL = None"
    and b: "object_new integer_host = Some 7" and c: "morpho_malloc integer_host"
    by (simp_all add: integer_host_def)
  from lagrange_constructor_bad_argument [OF a, of empty_runtime] a b c show ?thesis
    by blast
qed

lemma nodepositions_fold:
  "fold (\<lambda>i m. matrix_setelement m 0 i (f i)) [0..<k] out
     = out @ map (\<lambda>i. ((0, i), f i)) [0..<k]"
  by (induction k) (simp_all add: matrix_setelement_def)

text \<open>Below \<^verbatim>\<open>INT_MAX\<close> the count is the order plus 1, and the divisor is the order.\<close>

lemma cgn_nodecount_eq:
  "INT_MIN \<le> order d \<Longrightarrow> order d < INT_MAX \<Longrightarrow> cgn_nodecount d = order d + 1"
  unfolding cgn_nodecount_def by (rule int_wrap_id) simp_all

lemma cgn_nodepositions_eq:
  assumes "INT_MIN \<le> order d" and "order d < INT_MAX"
  shows "cgn_nodepositions d out =
     (True, out @ map (\<lambda>i. ((0, i), double_div (int i) (order d))) [0..<nat (order d + 1)])"
proof -
  from assms have "int_wrap (order d) = order d" by (intro int_wrap_id) simp_all
  with assms show ?thesis
    by (simp add: cgn_nodepositions_def cgn_nodecount_eq Let_def nodepositions_fold)
qed

text \<open>
  At the order \<^verbatim>\<open>INT_MAX\<close> the count wraps around to \<^verbatim>\<open>INT_MIN\<close>, and the loop writes
  nothing.
\<close>

lemma cgn_nodepositions_overflow:
  assumes "order d = INT_MAX"
  shows "cgn_nodecount d = INT_MIN \<and> cgn_nodepositions d out = (True, out)"
proof -
  from assms have "cgn_nodecount d = INT_MIN"
    by (simp add: cgn_nodecount_def int_wrap_def INT_MAX_def INT_MIN_def)
  then show ?thesis by (simp add: cgn_nodepositions_def Let_def INT_MIN_def)
qed

text \<open>
  Claim C9, as the code has it. Let the order of d be an \<^verbatim>\<open>int\<close> below \<^verbatim>\<open>INT_MAX\<close>, so
  that the order plus 1 is an \<^verbatim>\<open>int\<close>. Then \<^verbatim>\<open>cgn_nodepositions\<close> returns true and writes,
  for every i from 0 below \<^verbatim>\<open>cgn_nodecount(d)\<close>, which is the order of d plus 1, the
  quotient of i and n - 1 to column i of row 0; the divisor n - 1 is the order of d. It
  divides by zero exactly when the order of d is 0, where the position of the single
  node is 0 divided by 0. When the order is at least 1 it writes order + 1 coordinates,
  i divided by the order, evenly spaced from 0 to 1; when the order is negative it
  writes nothing and so divides by nothing.
\<close>

theorem cgn_nodepositions_division:
  assumes "INT_MIN \<le> order d" and "order d < INT_MAX"
  shows "cgn_nodecount d = order d + 1
   \<and> cgn_nodepositions d out =
       (True, out @ map (\<lambda>i. ((0, i), double_div (int i) (int_wrap (cgn_nodecount d - 1))))
                      [0..<nat (cgn_nodecount d)])
   \<and> int_wrap (cgn_nodecount d - 1) = order d
   \<and> divides_by_zero d = (order d = 0)
   \<and> (order d = 0 \<longrightarrow> snd (cgn_nodepositions d out) = out @ [((0, 0), Division_by_zero)])
   \<and> (1 \<le> order d \<longrightarrow>
        length (snd (cgn_nodepositions d out)) = length out + nat (order d + 1)
        \<and> (\<forall>i < nat (order d + 1).
             snd (cgn_nodepositions d out) ! (length out + i)
               = ((0, i), Coordinate (real i / real_of_int (order d)))
             \<and> 0 \<le> real i / real_of_int (order d) \<and> real i / real_of_int (order d) \<le> 1))
   \<and> (order d < 0 \<longrightarrow> snd (cgn_nodepositions d out) = out)"
proof (intro conjI impI allI)
  note eq = cgn_nodepositions_eq [OF assms]
  show n: "cgn_nodecount d = order d + 1" using assms by (rule cgn_nodecount_eq)
  from assms show w: "int_wrap (cgn_nodecount d - 1) = order d"
    by (simp add: n int_wrap_id)
  show "cgn_nodepositions d out =
       (True, out @ map (\<lambda>i. ((0, i), double_div (int i) (int_wrap (cgn_nodecount d - 1))))
                      [0..<nat (cgn_nodecount d)])"
    by (simp only: w) (simp add: n eq)
  show "divides_by_zero d = (order d = 0)"
  proof (cases "order d = 0")
    case True
    then show ?thesis
      by (simp add: divides_by_zero_def eq double_div_def image_iff)
  next
    case False
    then show ?thesis
      by (auto simp: divides_by_zero_def eq double_div_def)
  qed
  show "snd (cgn_nodepositions d out) = out @ [((0, 0), Division_by_zero)]" if "order d = 0"
    using that by (simp add: eq double_div_def)
  show "length (snd (cgn_nodepositions d out)) = length out + nat (order d + 1)"
    by (simp add: eq)
  show "snd (cgn_nodepositions d out) = out" if "order d < 0"
    using that by (simp add: eq)
next
  fix i assume o: "1 \<le> order d" and i: "i < nat (order d + 1)"
  then show "snd (cgn_nodepositions d out) ! (length out + i)
             = ((0, i), Coordinate (real i / real_of_int (order d)))"
    by (simp add: cgn_nodepositions_eq [OF assms] double_div_def nth_append)
  from o i have "real i \<le> real_of_int (order d)" by linarith
  with o show "real i / real_of_int (order d) \<le> 1" by simp
  from o show "0 \<le> real i / real_of_int (order d)" by simp
qed

text \<open>
  The theorem at a discretization of order 0, at one of order 2, whose nodes are at 0,
  1/2 and 1, and at one of order -1.
\<close>

theorem cgn_nodepositions_division_witness:
  "INT_MIN \<le> order (lagrange_of_order 0) \<and> order (lagrange_of_order 0) < INT_MAX
   \<and> INT_MIN \<le> order (lagrange_of_order 2) \<and> order (lagrange_of_order 2) < INT_MAX
   \<and> INT_MIN \<le> order (lagrange_of_order (- 1)) \<and> order (lagrange_of_order (- 1)) < INT_MAX
   \<and> order (lagrange_of_order 0) = 0
   \<and> divides_by_zero (lagrange_of_order 0)
   \<and> snd (cgn_nodepositions (lagrange_of_order 0) []) = [((0, 0), Division_by_zero)]
   \<and> 1 \<le> order (lagrange_of_order 2)
   \<and> \<not> divides_by_zero (lagrange_of_order 2)
   \<and> (1 :: nat) < nat (order (lagrange_of_order 2) + 1)
   \<and> snd (cgn_nodepositions (lagrange_of_order 2) []) ! 1 = ((0, 1), Coordinate (1 / 2))
   \<and> order (lagrange_of_order (- 1)) < 0
   \<and> \<not> divides_by_zero (lagrange_of_order (- 1))
   \<and> snd (cgn_nodepositions (lagrange_of_order (- 1)) []) = []"
proof -
  have o0: "order (lagrange_of_order 0) = 0" and o2: "order (lagrange_of_order 2) = 2"
    and o1: "order (lagrange_of_order (- 1)) = - 1"
    by (simp_all add: lagrange_of_order_def)
  have r0: "INT_MIN \<le> order (lagrange_of_order 0)" "order (lagrange_of_order 0) < INT_MAX"
    and r2: "INT_MIN \<le> order (lagrange_of_order 2)" "order (lagrange_of_order 2) < INT_MAX"
    and r1: "INT_MIN \<le> order (lagrange_of_order (- 1))"
      "order (lagrange_of_order (- 1)) < INT_MAX"
    by (simp_all add: o0 o2 o1 INT_MIN_def INT_MAX_def)
  from o2 have p2: "1 \<le> order (lagrange_of_order 2)" "order (lagrange_of_order 2) \<noteq> 0"
    by simp_all
  from o1 have n1: "order (lagrange_of_order (- 1)) < 0" "order (lagrange_of_order (- 1)) \<noteq> 0"
    by simp_all
  from cgn_nodepositions_division [OF r0, of "[]"] o0
  have a: "divides_by_zero (lagrange_of_order 0)"
    "snd (cgn_nodepositions (lagrange_of_order 0) []) = [] @ [((0, 0), Division_by_zero)]"
    by blast+
  from cgn_nodepositions_division [OF r2, of "[]"] p2
  have b: "\<not> divides_by_zero (lagrange_of_order 2)"
    and c: "\<forall>i < nat (order (lagrange_of_order 2) + 1).
       snd (cgn_nodepositions (lagrange_of_order 2) []) ! (length ([] :: objectmatrix) + i)
         = ((0, i), Coordinate (real i / real_of_int (order (lagrange_of_order 2))))
       \<and> 0 \<le> real i / real_of_int (order (lagrange_of_order 2))
       \<and> real i / real_of_int (order (lagrange_of_order 2)) \<le> 1"
    by blast+
  have i: "(1 :: nat) < nat (order (lagrange_of_order 2) + 1)" by (simp add: o2)
  with c have "snd (cgn_nodepositions (lagrange_of_order 2) []) ! (length ([] :: objectmatrix) + 1)
         = ((0, 1), Coordinate (real 1 / real_of_int (order (lagrange_of_order 2))))"
    by blast
  then have e: "snd (cgn_nodepositions (lagrange_of_order 2) []) ! 1 = ((0, 1), Coordinate (1 / 2))"
    by (simp add: o2)
  from cgn_nodepositions_division [OF r1, of "[]"] n1
  have f: "\<not> divides_by_zero (lagrange_of_order (- 1))"
    "snd (cgn_nodepositions (lagrange_of_order (- 1)) []) = []"
    by blast+
  from r0 r2 r1 o0 p2 n1 a b i e f show ?thesis by simp
qed

text \<open>
  Claim C9 as it is stated fails at a discretization of order -1, which the constructor
  builds from the argument -1: no node is written and nothing is divided, and the order
  is not at least 1.
\<close>

theorem cgn_nodepositions_division_counterexample:
  "\<not> ((\<not> divides_by_zero (lagrange_of_order (- 1))) = (1 \<le> order (lagrange_of_order (- 1))))"
proof -
  have "cgn_nodepositions (lagrange_of_order (- 1)) [] = (True, [])"
    by (subst cgn_nodepositions_eq)
      (simp_all add: lagrange_of_order_def INT_MIN_def INT_MAX_def)
  then show ?thesis by (simp add: divides_by_zero_def lagrange_of_order_def)
qed

end
